theory Spec2Isabelle
  imports Complex_Main "HOL-Library.Sublist"
begin

section \<open>Job recommendations: a model of src/lib/recommendations.ts\<close>

text \<open>
  The module ranks job postings against user profiles. Its two collaborators, the storage
  client and the embedding module (\<^verbatim>\<open>./hfEmbeddings\<close>), are parameters of the model: a
  storage client is the record of the responses it gives, \<^verbatim>\<open>embedTexts\<close> and
  \<^verbatim>\<open>cosineSimilarity\<close> are functions that may fail. A thrown error is the left summand of
  a sum. Numbers are real numbers: rounding, NaN and the infinities of IEEE doubles are
  not modelled. A string is the list of its code units, each below U+0100; lower-casing
  and white space are those of that range.
\<close>

subsection \<open>Strings\<close>

text \<open>\<^verbatim>\<open>s.toLowerCase()\<close> on the code units below U+0100: the letters A to Z, and the
  letters from U+00C0 to U+00DE without the multiplication sign U+00D7, each become the
  code unit 32 above.\<close>

definition toLowerCase :: "string \<Rightarrow> string" where
  "toLowerCase s =
     map (\<lambda>c. case map_of
                   (zip (''ABCDEFGHIJKLMNOPQRSTUVWXYZ'' @
                         [
          CHR 0xC0, CHR 0xC1, CHR 0xC2, CHR 0xC3, CHR 0xC4, CHR 0xC5, CHR 0xC6, CHR 0xC7,
          CHR 0xC8, CHR 0xC9, CHR 0xCA, CHR 0xCB, CHR 0xCC, CHR 0xCD, CHR 0xCE, CHR 0xCF,
          CHR 0xD0, CHR 0xD1, CHR 0xD2, CHR 0xD3, CHR 0xD4, CHR 0xD5, CHR 0xD6, CHR 0xD8,
          CHR 0xD9, CHR 0xDA, CHR 0xDB, CHR 0xDC, CHR 0xDD, CHR 0xDE])
                        (''abcdefghijklmnopqrstuvwxyz'' @
                         [
          CHR 0xE0, CHR 0xE1, CHR 0xE2, CHR 0xE3, CHR 0xE4, CHR 0xE5, CHR 0xE6, CHR 0xE7,
          CHR 0xE8, CHR 0xE9, CHR 0xEA, CHR 0xEB, CHR 0xEC, CHR 0xED, CHR 0xEE, CHR 0xEF,
          CHR 0xF0, CHR 0xF1, CHR 0xF2, CHR 0xF3, CHR 0xF4, CHR 0xF5, CHR 0xF6, CHR 0xF8,
          CHR 0xF9, CHR 0xFA, CHR 0xFB, CHR 0xFC, CHR 0xFD, CHR 0xFE]))
                   c of
                 Some d \<Rightarrow> d
               | None \<Rightarrow> c) s"

text \<open>The class \<^verbatim>\<open>\s\<close> of a regular expression, on the code units below U+0100: tab,
  line feed, vertical tab, form feed, carriage return, space and the no-break space
  U+00A0.\<close>

definition isSpace :: "char \<Rightarrow> bool" where
  "isSpace c =
     (c \<in> set [CHR 0x09, CHR 0x0A, CHR 0x0B, CHR 0x0C, CHR 0x0D, CHR 0x20, CHR 0xA0])"

text \<open>The class \<^verbatim>\<open>[\s,;]\<close>.\<close>

definition isSeparator :: "char \<Rightarrow> bool" where
  "isSeparator c = (isSpace c \<or> c = CHR '','' \<or> c = CHR '';'')"

text \<open>\<^verbatim>\<open>s.split(/sep+/).filter(Boolean)\<close>: the maximal runs of characters that are not
  separators, in order. The second argument is the run being read.\<close>

fun splitFilter :: "(char \<Rightarrow> bool) \<Rightarrow> string \<Rightarrow> string \<Rightarrow> string list" where
  "splitFilter sep acc [] = (if acc = [] then [] else [acc])"
| "splitFilter sep acc (c # cs) =
     (if sep c then (if acc = [] then splitFilter sep [] cs else acc # splitFilter sep [] cs)
      else splitFilter sep (acc @ [c]) cs)"

text \<open>\<^verbatim>\<open>s.trim()\<close>.\<close>

definition trim :: "string \<Rightarrow> string" where
  "trim s = rev (dropWhile isSpace (rev (dropWhile isSpace s)))"

text \<open>\<^verbatim>\<open>xs.join(' ')\<close>.\<close>

fun join :: "string list \<Rightarrow> string" where
  "join [] = []"
| "join [x] = x"
| "join (x # y # ys) = x @ '' '' @ join (y # ys)"

fun startsWith :: "string \<Rightarrow> string \<Rightarrow> bool" where
  "startsWith s [] = True"
| "startsWith [] (c # cs) = False"
| "startsWith (d # ds) (c # cs) = (d = c \<and> startsWith ds cs)"

text \<open>\<^verbatim>\<open>s.includes(sub)\<close>: \<open>sub\<close> occurs in \<open>s\<close> as a substring.\<close>

fun includes_str :: "string \<Rightarrow> string \<Rightarrow> bool" where
  "includes_str [] sub = (sub = [])"
| "includes_str (c # cs) sub = (startsWith (c # cs) sub \<or> includes_str cs sub)"

subsection \<open>Values of type any\<close>

text \<open>A JSON column (\<^verbatim>\<open>job_metadata?: any\<close>) holds any value. An object is the list of its
  own properties in the order \<^verbatim>\<open>Object.entries\<close> yields them.\<close>

datatype jsval =
    JUndefined
  | JNull
  | JBool bool
  | JNum real
  | JStr string
  | JArr "jsval list"
  | JObj "(string \<times> jsval) list"

text \<open>Truthiness, as \<^verbatim>\<open>if (v)\<close>, \<^verbatim>\<open>v || w\<close> and \<^verbatim>\<open>v && w\<close> test it.\<close>

fun truthy :: "jsval \<Rightarrow> bool" where
  "truthy JUndefined = False"
| "truthy JNull = False"
| "truthy (JBool b) = b"
| "truthy (JNum x) = (x \<noteq> 0)"
| "truthy (JStr s) = (s \<noteq> [])"
| "truthy (JArr vs) = True"
| "truthy (JObj kvs) = True"

text \<open>\<^verbatim>\<open>v && typeof v === 'object'\<close>: arrays and objects (null is not truthy).\<close>

fun isObject :: "jsval \<Rightarrow> bool" where
  "isObject (JArr vs) = True"
| "isObject (JObj kvs) = True"
| "isObject v = False"

text \<open>\<^verbatim>\<open>v?.k\<close> for a key that no primitive, string or array has as a property.\<close>

fun getField :: "jsval \<Rightarrow> string \<Rightarrow> jsval" where
  "getField (JObj kvs) k = (case map_of kvs k of Some v \<Rightarrow> v | None \<Rightarrow> JUndefined)"
| "getField v k = JUndefined"

fun digit :: "nat \<Rightarrow> char" where
  "digit n = ''0123456789'' ! (n mod 10)"

fun string_of_nat :: "nat \<Rightarrow> string" where
  "string_of_nat n = (if n < 10 then [digit n] else string_of_nat (n div 10) @ [digit n])"

text \<open>\<^verbatim>\<open>Object.entries(v)\<close> for a value that passed the test \<open>isObject\<close>: the keys of an
  array are its indices in decimal.\<close>

fun entries :: "jsval \<Rightarrow> (string \<times> jsval) list" where
  "entries (JObj kvs) = kvs"
| "entries (JArr vs) = zip (map string_of_nat [0 ..< length vs]) vs"
| "entries v = []"

subsection \<open>Rows\<close>

text \<open>\<^verbatim>\<open>string | string[] | null | undefined\<close>, the parameter of the two text
  normalizers.\<close>

datatype text_field = Absent | Text string | Texts "string list"

record UserProfile =
  id_profile :: string
  skills :: text_field
  accessibility_needs :: "string list option"

text \<open>\<^verbatim>\<open>JobRow\<close>. A string field that is null or undefined is \<open>None\<close>. The last field is the
  column \<^verbatim>\<open>accessibility_features\<close> that \<^verbatim>\<open>jobAccessibilityToText\<close> reads through
  \<^verbatim>\<open>job as any\<close>; it is not in the declared type.\<close>

record JobRow =
  id_job :: string
  title :: "string option"
  description :: "string option"
  "content" :: "string option"
  job_metadata :: jsval
  accessibility_features :: jsval

subsection \<open>Text normalizers (lines 12-50)\<close>

fun skillsToText :: "text_field \<Rightarrow> string" where
  "skillsToText (Texts xs) = join (filter (\<lambda>x. x \<noteq> []) xs)"
| "skillsToText (Text s) = s"
| "skillsToText Absent = []"

fun accessibilityNeedsToText :: "text_field \<Rightarrow> string" where
  "accessibilityNeedsToText (Texts xs) = join (filter (\<lambda>x. x \<noteq> []) xs)"
| "accessibilityNeedsToText (Text s) = s"
| "accessibilityNeedsToText Absent = []"

text \<open>The keys of \<open>v\<close> with a truthy value, when \<open>v\<close> is an object (lines 36-40 and
  44-48).\<close>

definition truthyKeys :: "jsval \<Rightarrow> string list" where
  "truthyKeys v =
     (if truthy v \<and> isObject v then map fst (filter (\<lambda>(k, x). truthy x) (entries v)) else [])"

text \<open>The job may be undefined (\<open>None\<close>): the source guards both reads, with
  \<^verbatim>\<open>job && job.job_metadata\<close> and \<^verbatim>\<open>anyJob?.accessibility_features\<close>.\<close>

definition jobAccessibilityToText :: "JobRow option \<Rightarrow> string" where
  "jobAccessibilityToText job =
     (let m = (case job of None \<Rightarrow> JUndefined | Some j \<Rightarrow> job_metadata j);
          meta = (if truthy m then m else JObj []);
          fromMetadata = getField meta ''accessibility_features'';
          jobTableFeatures =
            (case job of None \<Rightarrow> JUndefined | Some j \<Rightarrow> accessibility_features j)
      in join (truthyKeys fromMetadata @ truthyKeys jobTableFeatures))"

subsection \<open>Accessibility boost (lines 52-76)\<close>

text \<open>One turn of the loop over the needs: what it adds to \<^verbatim>\<open>matches\<close>.\<close>

definition needMatch :: "string set \<Rightarrow> string \<Rightarrow> real" where
  "needMatch enabled needRaw =
     (let need = toLowerCase needRaw in
      if need = [] then 0
      else if includes_str need ''visual'' then
        (if ''screenreadersupport'' \<in> enabled \<or> ''screen_reader_support'' \<in> enabled
            \<or> ''assistivetechnology'' \<in> enabled then 1 else 0)
      else if includes_str need ''hearing'' then
        (if ''signlanguagesupport'' \<in> enabled then 1 else 0)
      else if includes_str need ''mobility'' then
        (if ''accessibleoffice'' \<in> enabled \<or> ''remotework'' \<in> enabled then 1 else 0)
      else if includes_str need ''cognitive'' then
        (if ''flexiblehours'' \<in> enabled \<or> ''remotework'' \<in> enabled then 1 else 0)
      else (if enabled \<noteq> {} then 0.5 else 0))"

text \<open>The loop: \<^verbatim>\<open>matches\<close> after all needs, from a starting value.\<close>

fun countMatches :: "string set \<Rightarrow> real \<Rightarrow> string list \<Rightarrow> real" where
  "countMatches enabled matches [] = matches"
| "countMatches enabled matches (needRaw # needs) =
     countMatches enabled (matches + needMatch enabled needRaw) needs"

text \<open>Line 74: \<^verbatim>\<open>Math.min(0.2, matches * 0.05)\<close>.\<close>

definition capBoost :: "real \<Rightarrow> real" where
  "capBoost matches = min 0.2 (matches * 0.05)"

definition enabledFeatures :: "JobRow option \<Rightarrow> string set" where
  "enabledFeatures job = set (splitFilter isSpace [] (toLowerCase (jobAccessibilityToText job)))"

definition computeAccessibilityBoost :: "string list option \<Rightarrow> JobRow option \<Rightarrow> real" where
  "computeAccessibilityBoost needs job =
     (case needs of
        None \<Rightarrow> 0
      | Some ns \<Rightarrow>
          if ns = [] then 0
          else let enabled = enabledFeatures job in
               if enabled = {} then 0
               else capBoost (countMatches enabled 0 ns))"

subsection \<open>Collaborators\<close>

text \<open>A thrown value: the error object of a storage response, or an exception.\<close>

datatype error = Error string

text \<open>What a storage query resolves to: \<^verbatim>\<open>{ data, error }\<close>, each of them possibly
  null.\<close>

record 'a response =
  data :: "'a option"
  error :: "error option"

text \<open>A row of \<^verbatim>\<open>from('jobs').select('id, title, description')\<close> has these three
  columns and no other.\<close>

record JobsColumns =
  jobs_id :: string
  jobs_title :: "string option"
  jobs_description :: "string option"

text \<open>A row of \<^verbatim>\<open>from('posts').select('id, title, content, job_metadata')\<close>.\<close>

record PostsColumns =
  posts_id :: string
  posts_title :: "string option"
  posts_content :: "string option"
  posts_job_metadata :: jsval

text \<open>The storage client, as the responses of the four queries the module sends.\<close>

record SupabaseClient =
  select_profiles :: "UserProfile list response"
  select_profile :: "string \<Rightarrow> UserProfile response"
  select_jobs :: "JobsColumns list response"
  select_posts :: "PostsColumns list response"

text \<open>The calls to the collaborators, in the order they are sent.\<close>

datatype call =
    SelectProfiles
  | SelectProfile string
  | SelectJobs
  | SelectPosts
  | EmbedTexts "string list"

type_synonym vector = "real list"

text \<open>\<^verbatim>\<open>embedTexts\<close> and \<^verbatim>\<open>cosineSimilarity\<close> of \<^verbatim>\<open>./hfEmbeddings\<close>. A vector read
  from an array beyond its end is undefined (\<open>None\<close>).\<close>

type_synonym embedder = "string list \<Rightarrow> error + vector list"

type_synonym similarity = "vector option \<Rightarrow> vector option \<Rightarrow> error + real"

subsection \<open>Arrays\<close>

text \<open>\<^verbatim>\<open>xs[i]\<close>: undefined beyond the end.\<close>

definition nth_opt :: "'a list \<Rightarrow> nat \<Rightarrow> 'a option" where
  "nth_opt xs i = (if i < length xs then Some (xs ! i) else None)"

text \<open>A loop or \<^verbatim>\<open>map\<close> whose body may throw: the first error ends it.\<close>

fun mapE :: "('a \<Rightarrow> error + 'b) \<Rightarrow> 'a list \<Rightarrow> error + 'b list" where
  "mapE f [] = Inr []"
| "mapE f (x # xs) =
     (case f x of
        Inl e \<Rightarrow> Inl e
      | Inr y \<Rightarrow> (case mapE f xs of Inl e \<Rightarrow> Inl e | Inr ys \<Rightarrow> Inr (y # ys)))"

text \<open>\<^verbatim>\<open>xs.sort(cmp)\<close>. The sort of an array is stable, and for a consistent comparator
  its result is the one stable sorted arrangement; inserting the elements from the right,
  each in front of the first element it does not come after, computes it.\<close>

fun insertSorted :: "('a \<Rightarrow> 'a \<Rightarrow> real) \<Rightarrow> 'a \<Rightarrow> 'a list \<Rightarrow> 'a list" where
  "insertSorted cmp x [] = [x]"
| "insertSorted cmp x (y # ys) =
     (if cmp x y \<le> 0 then x # y # ys else y # insertSorted cmp x ys)"

definition sortBy :: "('a \<Rightarrow> 'a \<Rightarrow> real) \<Rightarrow> 'a list \<Rightarrow> 'a list" where
  "sortBy cmp xs = foldr (insertSorted cmp) xs []"

text \<open>\<^verbatim>\<open>xs.slice(0, n)\<close> for an integer \<open>n\<close>: a negative end counts from the end of the
  array.\<close>

definition slice0 :: "'a list \<Rightarrow> int \<Rightarrow> 'a list" where
  "slice0 xs n = (if n < 0 then take (nat (int (length xs) + n)) xs else take (nat n) xs)"

subsection \<open>Loading (lines 78-109 and 145-175)\<close>

definition jobOfJobsRow :: "JobsColumns \<Rightarrow> JobRow" where
  "jobOfJobsRow r =
     \<lparr>id_job = jobs_id r, title = jobs_title r, description = jobs_description r,
      content = None, job_metadata = JUndefined, accessibility_features = JUndefined\<rparr>"

text \<open>Lines 105 and 172: \<^verbatim>\<open>{ id: p.id, title: p.title, content: p.content,
  job_metadata: p.job_metadata }\<close>.\<close>

definition jobOfPost :: "PostsColumns \<Rightarrow> JobRow" where
  "jobOfPost p =
     \<lparr>id_job = posts_id p, title = posts_title p, description = None,
      content = posts_content p, job_metadata = posts_job_metadata p,
      accessibility_features = JUndefined\<rparr>"

text \<open>Lines 86-106, and again lines 155-173: the jobs table first, the posts when the
  jobs response has an error or its data is not an array. The result is the calls sent
  and either the error thrown or the jobs with \<^verbatim>\<open>usedPostsFallback\<close>.\<close>

definition loadJobs :: "SupabaseClient \<Rightarrow> call list \<times> (error + JobRow list \<times> bool)" where
  "loadJobs supabase =
     (case (error (select_jobs supabase), data (select_jobs supabase)) of
        (None, Some jobsData) \<Rightarrow> ([SelectJobs], Inr (map jobOfJobsRow jobsData, False))
      | _ \<Rightarrow>
          (case error (select_posts supabase) of
             Some postsError \<Rightarrow> ([SelectJobs, SelectPosts], Inl postsError)
           | None \<Rightarrow>
               ([SelectJobs, SelectPosts],
                Inr (map jobOfPost (case data (select_posts supabase) of
                                      None \<Rightarrow> []
                                    | Some postsData \<Rightarrow> postsData), True))))"

definition fetchProfilesAndJobs ::
  "SupabaseClient \<Rightarrow> call list \<times> (error + UserProfile list \<times> JobRow list \<times> bool)" where
  "fetchProfilesAndJobs supabase =
     (case error (select_profiles supabase) of
        Some profilesError \<Rightarrow> ([SelectProfiles], Inl profilesError)
      | None \<Rightarrow>
          (case loadJobs supabase of
             (calls, Inl e) \<Rightarrow> (SelectProfiles # calls, Inl e)
           | (calls, Inr (jobs, usedPostsFallback)) \<Rightarrow>
               (SelectProfiles # calls,
                Inr (case data (select_profiles supabase) of None \<Rightarrow> [] | Some ps \<Rightarrow> ps,
                     jobs, usedPostsFallback))))"

subsection \<open>Texts to embed (lines 115, 117, 179, 180)\<close>

text \<open>\<^verbatim>\<open>s || d\<close> for a string field \<open>s\<close>: null, undefined and the empty string are
  falsy.\<close>

fun orElse :: "string option \<Rightarrow> string \<Rightarrow> string" where
  "orElse None d = d"
| "orElse (Some s) d = (if s = [] then d else s)"

fun needsField :: "string list option \<Rightarrow> text_field" where
  "needsField None = Absent"
| "needsField (Some ns) = Texts ns"

definition profileText :: "UserProfile \<Rightarrow> string" where
  "profileText p =
     trim (skillsToText (skills p) @ '' '' @
           accessibilityNeedsToText (needsField (accessibility_needs p)))"

definition jobText :: "JobRow \<Rightarrow> string" where
  "jobText j =
     trim (orElse (description j) (orElse (content j) (orElse (title j) [])) @ '' '' @
           jobAccessibilityToText (Some j))"

subsection \<open>Scored candidates\<close>

text \<open>The two object literals the module returns: \<^verbatim>\<open>{ jobId, score }\<close> (line 135, where
  \<^verbatim>\<open>jobIds[jIdx]\<close> is undefined beyond the end of the jobs) and \<^verbatim>\<open>{ job, score }\<close>
  (lines 187 and 207).\<close>

datatype scored =
    is_JobIdScore: JobIdScore (jobId: "string option") (score: real)
  | is_JobScore: JobScore (job: JobRow) (score: real)

text \<open>The comparator \<^verbatim>\<open>(a, b) => b.score - a.score\<close>.\<close>

definition byScoreDesc :: "scored \<Rightarrow> scored \<Rightarrow> real" where
  "byScoreDesc a b = score b - score a"

text \<open>\<^verbatim>\<open>{ results, usedPostsFallback }\<close>.\<close>

record 'r recommendations =
  results :: 'r
  usedPostsFallback :: bool

text \<open>\<^verbatim>\<open>topN: number = 5\<close>; the parameter is an integer here.\<close>

fun topNOrDefault :: "int option \<Rightarrow> int" where
  "topNOrDefault None = 5"
| "topNOrDefault (Some n) = n"

subsection \<open>Bulk ranking (lines 111-142)\<close>

text \<open>The body of the inner loop (lines 131-135) for the profile at \<open>pIdx\<close> and the job
  vector at \<open>jIdx\<close>. Reading \<^verbatim>\<open>accessibility_needs\<close> of a profile beyond the end of the
  profiles is a TypeError; a job beyond the end of the jobs is undefined.\<close>

definition scorePair ::
  "similarity \<Rightarrow> UserProfile list \<Rightarrow> JobRow list \<Rightarrow> nat \<Rightarrow> vector \<Rightarrow> nat \<times> vector
     \<Rightarrow> error + scored" where
  "scorePair cosineSimilarity profiles jobs pIdx pVec jv =
     (case jv of (jIdx, jVec) \<Rightarrow>
        (case cosineSimilarity (Some pVec) (Some jVec) of
           Inl e \<Rightarrow> Inl e
         | Inr base \<Rightarrow>
             (case nth_opt profiles pIdx of
                None \<Rightarrow> Inl (Error ''TypeError'')
              | Some p \<Rightarrow>
                  Inr (JobIdScore (nth_opt (map id_job jobs) jIdx)
                         (base + computeAccessibilityBoost (accessibility_needs p)
                                   (nth_opt jobs jIdx))))))"

text \<open>The outer loop (lines 127-139) over the profile vectors that remain, each with its
  index; \<open>acc\<close> is \<^verbatim>\<open>results\<close> so far. The key of a profile beyond the end of the
  profiles is the string of \<^verbatim>\<open>undefined\<close>.\<close>

fun rankLoop ::
  "similarity \<Rightarrow> UserProfile list \<Rightarrow> JobRow list \<Rightarrow> vector list \<Rightarrow> int
     \<Rightarrow> (nat \<times> vector) list \<Rightarrow> (string \<rightharpoonup> scored list) \<Rightarrow> error + (string \<rightharpoonup> scored list)"
  where
  "rankLoop cosineSimilarity profiles jobs jobEmbeddings topN [] acc = Inr acc"
| "rankLoop cosineSimilarity profiles jobs jobEmbeddings topN ((pIdx, pVec) # rest) acc =
     (case mapE (scorePair cosineSimilarity profiles jobs pIdx pVec)
             (zip [0 ..< length jobEmbeddings] jobEmbeddings) of
        Inl e \<Rightarrow> Inl e
      | Inr scores \<Rightarrow>
          rankLoop cosineSimilarity profiles jobs jobEmbeddings topN rest
            (acc((case nth_opt (map id_profile profiles) pIdx of
                    None \<Rightarrow> ''undefined''
                  | Some k \<Rightarrow> k) \<mapsto> slice0 (sortBy byScoreDesc scores) topN)))"

text \<open>Both embedding requests are sent before either is awaited; a failure of either is
  thrown.\<close>

definition computeRecommendationsForAllUsers ::
  "SupabaseClient \<Rightarrow> embedder \<Rightarrow> similarity \<Rightarrow> int option
     \<Rightarrow> call list \<times> (error + (string \<rightharpoonup> scored list) recommendations)" where
  "computeRecommendationsForAllUsers supabase embedTexts cosineSimilarity topN =
     (case fetchProfilesAndJobs supabase of
        (calls, Inl e) \<Rightarrow> (calls, Inl e)
      | (calls, Inr (profiles, jobs, flag)) \<Rightarrow>
          (let profileTexts = map profileText profiles;
               jobTexts = map jobText jobs;
               sent = calls @ [EmbedTexts profileTexts, EmbedTexts jobTexts]
           in case embedTexts profileTexts of
                Inl e \<Rightarrow> (sent, Inl e)
              | Inr profileEmbeddings \<Rightarrow>
                  (case embedTexts jobTexts of
                     Inl e \<Rightarrow> (sent, Inl e)
                   | Inr jobEmbeddings \<Rightarrow>
                       (case rankLoop cosineSimilarity profiles jobs jobEmbeddings
                               (topNOrDefault topN)
                               (zip [0 ..< length profileEmbeddings] profileEmbeddings)
                               Map.empty of
                          Inl e \<Rightarrow> (sent, Inl e)
                        | Inr res \<Rightarrow>
                            (sent, Inr \<lparr>results = res, usedPostsFallback = flag\<rparr>)))))"

subsection \<open>Single-user ranking (lines 144-211)\<close>

text \<open>The callback of \<^verbatim>\<open>jobs.map\<close> (lines 184-188) for a job and its index. A job
  vector beyond the end of \<^verbatim>\<open>jobEmbeddings\<close>, and a profile vector when
  \<^verbatim>\<open>profileVecArr\<close> is empty, are undefined.\<close>

definition semanticCandidate ::
  "similarity \<Rightarrow> UserProfile \<Rightarrow> vector list \<Rightarrow> vector list \<Rightarrow> JobRow \<times> nat
     \<Rightarrow> error + scored" where
  "semanticCandidate cosineSimilarity profile profileVecArr jobEmbeddings =
     (\<lambda>(j, idx). case cosineSimilarity (nth_opt profileVecArr 0) (nth_opt jobEmbeddings idx) of
                    Inl e \<Rightarrow> Inl e
                  | Inr base \<Rightarrow>
                      Inr (JobScore j (base + computeAccessibilityBoost
                                               (accessibility_needs profile) (Some j))))"

text \<open>The body of the \<^verbatim>\<open>try\<close> block up to the sort (lines 178-190): the error it throws,
  or \<^verbatim>\<open>scored\<close> after the sort.\<close>

definition semanticRanking ::
  "embedder \<Rightarrow> similarity \<Rightarrow> UserProfile \<Rightarrow> JobRow list \<Rightarrow> error + scored list" where
  "semanticRanking embedTexts cosineSimilarity profile jobs =
     (case embedTexts [profileText profile] of
        Inl e \<Rightarrow> Inl e
      | Inr profileVecArr \<Rightarrow>
          (case embedTexts (map jobText jobs) of
             Inl e \<Rightarrow> Inl e
           | Inr jobEmbeddings \<Rightarrow>
               (case mapE (semanticCandidate cosineSimilarity profile profileVecArr jobEmbeddings)
                       (zip jobs [0 ..< length jobs]) of
                  Inl e \<Rightarrow> Inl e
                | Inr scored \<Rightarrow> Inr (sortBy byScoreDesc scored))))"

text \<open>Lines 194-196: the words of the profile.\<close>

definition profileWords :: "UserProfile \<Rightarrow> string list" where
  "profileWords profile =
     splitFilter isSeparator []
       (toLowerCase (skillsToText (skills profile) @ '' '' @
                     accessibilityNeedsToText (needsField (accessibility_needs profile))))"

text \<open>Lines 198-207: the candidate of one job on the keyword path.\<close>

definition keywordScore :: "UserProfile \<Rightarrow> JobRow \<Rightarrow> scored" where
  "keywordScore profile j =
     (let text = toLowerCase (orElse (description j) [] @ '' '' @ orElse (content j) [] @ '' '' @
                              orElse (title j) [] @ '' '' @ jobAccessibilityToText (Some j));
          base = foldl (\<lambda>acc word. acc + (if includes_str text word then 1 else 0)) 0
                   (profileWords profile);
          boost = computeAccessibilityBoost (accessibility_needs profile) (Some j) * 20
      in JobScore j (base + boost))"

text \<open>The body of the \<^verbatim>\<open>catch\<close> block up to the sort (lines 194-209).\<close>

definition keywordRanking :: "UserProfile \<Rightarrow> JobRow list \<Rightarrow> scored list" where
  "keywordRanking profile jobs = sortBy byScoreDesc (map (keywordScore profile) jobs)"

definition computeRecommendationsForUser ::
  "SupabaseClient \<Rightarrow> embedder \<Rightarrow> similarity \<Rightarrow> string \<Rightarrow> int option
     \<Rightarrow> call list \<times> (error + scored list recommendations)" where
  "computeRecommendationsForUser supabase embedTexts cosineSimilarity userId topN =
     (case error (select_profile supabase userId) of
        Some profileError \<Rightarrow> ([SelectProfile userId], Inl profileError)
      | None \<Rightarrow>
          (case data (select_profile supabase userId) of
             None \<Rightarrow> ([SelectProfile userId], Inr \<lparr>results = [], usedPostsFallback = False\<rparr>)
           | Some profile \<Rightarrow>
               (case loadJobs supabase of
                  (calls, Inl e) \<Rightarrow> (SelectProfile userId # calls, Inl e)
                | (calls, Inr (jobs, flag)) \<Rightarrow>
                    if jobs = [] then
                      (SelectProfile userId # calls,
                       Inr \<lparr>results = [], usedPostsFallback = flag\<rparr>)
                    else
                      (SelectProfile userId # calls @
                         [EmbedTexts [profileText profile], EmbedTexts (map jobText jobs)],
                       Inr \<lparr>results =
                              (case semanticRanking embedTexts cosineSimilarity profile jobs of
                                 Inr scored \<Rightarrow> slice0 scored (topNOrDefault topN)
                               | Inl err \<Rightarrow>
                                   slice0 (keywordRanking profile jobs) (topNOrDefault topN)),
                            usedPostsFallback = flag\<rparr>))))"

subsection \<open>The text normalizers on run-time values (lines 12-50)\<close>

text \<open>The declared parameter types do not hold at run time: a row is whatever the storage
  client returns. Here the three normalizers take any value, and the operations of the
  source that throw on some values return an error for them, so that each guard of the
  source is a branch that keeps an error from being reached.\<close>














subsection \<open>The category table of the specification\<close>

text \<open>The table of section 4.2 of the specification, read from top to bottom: the key
  word a need contains, and the job tokens that count as a match.\<close>

definition categoryTable :: "(string \<times> string list) list" where
  "categoryTable =
     [(''visual'', [''screenreadersupport'', ''screen_reader_support'', ''assistivetechnology'']),
      (''hearing'', [''signlanguagesupport'']),
      (''mobility'', [''accessibleoffice'', ''remotework'']),
      (''cognitive'', [''flexiblehours'', ''remotework''])]"

text \<open>The credit of one lower-cased need: the first row whose key word it contains
  decides; with no such row, any job feature gives the generic credit.\<close>

fun tableCredit :: "(string \<times> string list) list \<Rightarrow> string set \<Rightarrow> string \<Rightarrow> real" where
  "tableCredit [] enabled need = (if enabled \<noteq> {} then 0.5 else 0)"
| "tableCredit ((keyword, features) # rows) enabled need =
     (if includes_str need keyword then (if set features \<inter> enabled \<noteq> {} then 1 else 0)
      else tableCredit rows enabled need)"

text \<open>The match count of the specification: the credits of the non-empty needs.\<close>

definition matchCount :: "string set \<Rightarrow> string list \<Rightarrow> real" where
  "matchCount enabled needs =
     sum_list (map (\<lambda>needRaw. if toLowerCase needRaw = [] then 0
                               else tableCredit categoryTable enabled (toLowerCase needRaw)) needs)"

subsection \<open>A similarity function for the examples\<close>

text \<open>Modelled from the spec: \<^verbatim>\<open>cosineSimilarity\<close> of \<^verbatim>\<open>./hfEmbeddings\<close>, which is not
  among the sources. Section 4.3: the dot product over the product of the two Euclidean
  norms; it fails when the vectors differ in length, and signals an error when a norm is
  zero. An undefined vector is an error as well. Only the examples use it: the rankings
  above take the similarity function as a parameter.\<close>

definition cosineSimilarity_spec :: similarity where
  "cosineSimilarity_spec a b =
     (case (a, b) of
        (Some u, Some v) \<Rightarrow>
          if length u \<noteq> length v then Inl (Error ''vector length mismatch'')
          else let dot = sum_list (map2 (*) u v);
                   normA = sqrt (sum_list (map (\<lambda>x. x * x) u));
                   normB = sqrt (sum_list (map (\<lambda>x. x * x) v))
               in if normA = 0 \<or> normB = 0 then Inl (Error ''zero norm'')
                  else Inr (dot / (normA * normB))
      | _ \<Rightarrow> Inl (Error ''TypeError''))"

subsection \<open>Sample rows, clients and embedders\<close>

definition sampleProfile :: UserProfile where
  "sampleProfile =
     \<lparr>id_profile = ''u1'', skills = Text ''python, sql'', accessibility_needs = Some [''Visual'']\<rparr>"

definition jobsRowA :: JobsColumns where
  "jobsRowA = \<lparr>jobs_id = ''j1'', jobs_title = Some ''Engineer'',
               jobs_description = Some ''java developer''\<rparr>"

definition jobsRowB :: JobsColumns where
  "jobsRowB = \<lparr>jobs_id = ''j2'', jobs_title = Some ''Analyst'',
               jobs_description = Some ''python sql analyst''\<rparr>"

definition jobsRowC :: JobsColumns where
  "jobsRowC = \<lparr>jobs_id = ''j3'', jobs_title = Some ''Tester'',
               jobs_description = Some ''java tester''\<rparr>"

definition postA :: PostsColumns where
  "postA = \<lparr>posts_id = ''p1'', posts_title = Some ''Developer'',
            posts_content = Some ''java developer'',
            posts_job_metadata =
              JObj [(''accessibility_features'',
                     JObj [(''screenReaderSupport'', JBool True), (''remoteWork'', JBool False)])]\<rparr>"

definition postB :: PostsColumns where
  "postB = \<lparr>posts_id = ''p2'', posts_title = Some ''Analyst'',
            posts_content = Some ''python analyst'', posts_job_metadata = JNull\<rparr>"

definition found :: "'a \<Rightarrow> 'a response" where
  "found x = \<lparr>data = Some x, error = None\<rparr>"

definition failed :: "string \<Rightarrow> 'a response" where
  "failed msg = \<lparr>data = None, error = Some (Error msg)\<rparr>"

definition noRow :: "'a response" where
  "noRow = \<lparr>data = None, error = None\<rparr>"

text \<open>A client whose jobs table answers with three rows.\<close>

definition jobsClient :: SupabaseClient where
  "jobsClient =
     \<lparr>select_profiles = found [sampleProfile],
      select_profile = (\<lambda>userId. if userId = ''u1'' then found sampleProfile else noRow),
      select_jobs = found [jobsRowA, jobsRowB, jobsRowC],
      select_posts = found [postA, postB]\<rparr>"

text \<open>A client whose jobs table fails, so that the posts are read.\<close>

definition postsClient :: SupabaseClient where
  "postsClient =
     \<lparr>select_profiles = found [sampleProfile],
      select_profile = (\<lambda>userId. if userId = ''u1'' then found sampleProfile else noRow),
      select_jobs = failed ''relation jobs does not exist'',
      select_posts = found [postA, postB]\<rparr>"

text \<open>A client whose jobs table answers with no rows.\<close>

definition emptyJobsClient :: SupabaseClient where
  "emptyJobsClient =
     \<lparr>select_profiles = found [sampleProfile],
      select_profile = (\<lambda>userId. if userId = ''u1'' then found sampleProfile else noRow),
      select_jobs = found [],
      select_posts = found [postA, postB]\<rparr>"

text \<open>An embedder that answers with one unit vector for each text, one that answers with
  vectors of two dimensions for one text and of three for several, and one that is down.\<close>

definition unitEmbedder :: embedder where
  "unitEmbedder texts = Inr (map (\<lambda>t. if includes_str t ''python'' then [1, 0] else [0, 1]) texts)"

definition raggedEmbedder :: embedder where
  "raggedEmbedder texts =
     Inr (map (\<lambda>t. if length texts = 1 then [1, 0] else [0, 1, 0]) texts)"

definition downEmbedder :: embedder where
  "downEmbedder texts = Inl (Error ''embedding service unavailable'')"

section \<open>Properties\<close>

subsection \<open>Sorting, slicing and loops that may throw\<close>

lemma set_insertSorted: "set (insertSorted cmp x ys) = insert x (set ys)"
  by (induction ys) auto

lemma length_insertSorted: "length (insertSorted cmp x ys) = Suc (length ys)"
  by (induction ys) auto

lemma set_sortBy: "set (sortBy cmp xs) = set xs"
  by (induction xs) (simp_all add: sortBy_def set_insertSorted)

lemma length_sortBy: "length (sortBy cmp xs) = length xs"
  by (induction xs) (simp_all add: sortBy_def length_insertSorted)

lemma sorted_insertSorted:
  "sorted_wrt (\<lambda>a b. score b \<le> score a) ys \<Longrightarrow>
   sorted_wrt (\<lambda>a b. score b \<le> score a) (insertSorted byScoreDesc x ys)"
proof (induction ys)
  case Nil
  show ?case by simp
next
  case (Cons y ys)
  show ?case
  proof (cases "byScoreDesc x y \<le> 0")
    case True
    then have "score y \<le> score x" by (simp add: byScoreDesc_def)
    with Cons.prems True show ?thesis by auto
  next
    case False
    then have "score x \<le> score y" by (simp add: byScoreDesc_def)
    with Cons False show ?thesis by (auto simp: set_insertSorted)
  qed
qed

lemma sorted_sortBy: "sorted_wrt (\<lambda>a b. score b \<le> score a) (sortBy byScoreDesc xs)"
  by (induction xs) (simp_all add: sortBy_def sorted_insertSorted)

lemma filter_insertSorted:
  "filter (\<lambda>c. score c = s) (insertSorted byScoreDesc x ys) =
     (if score x = s then x # filter (\<lambda>c. score c = s) ys else filter (\<lambda>c. score c = s) ys)"
  by (induction ys) (auto simp: byScoreDesc_def)

lemma filter_sortBy:
  "filter (\<lambda>c. score c = s) (sortBy byScoreDesc xs) = filter (\<lambda>c. score c = s) xs"
  by (induction xs) (simp_all add: sortBy_def filter_insertSorted)

lemma slice0_take: "\<exists>k. slice0 xs n = take k xs"
  by (auto simp: slice0_def)

lemma prefix_slice0: "prefix (slice0 xs n) xs"
  by (simp add: slice0_def take_is_prefix)

lemma set_slice0: "set (slice0 xs n) \<subseteq> set xs"
  by (simp add: slice0_def set_take_subset)

lemma length_slice0: "0 \<le> n \<Longrightarrow> length (slice0 xs n) = min (nat n) (length xs)"
  by (simp add: slice0_def)

lemma sorted_slice0:
  "sorted_wrt P xs \<Longrightarrow> sorted_wrt P (slice0 xs n)"
  by (simp add: slice0_def sorted_wrt_take)

lemma mapE_Inr: "(mapE f xs = Inr ys) = (map f xs = map Inr ys)"
proof (induction xs arbitrary: ys)
  case Nil
  show ?case by auto
next
  case (Cons x xs)
  show ?case
  proof (cases "f x")
    case (Inl e)
    then show ?thesis by (cases ys) auto
  next
    case (Inr y)
    show ?thesis
    proof (cases "mapE f xs")
      case (Inl e)
      have "map f xs \<noteq> map Inr zs" for zs
        using Cons.IH [of zs] Inl by simp
      with Inl Inr show ?thesis by (cases ys) auto
    next
      case r: (Inr zs)
      then have "map f xs = map Inr zs" using Cons.IH [of zs] by simp
      with r Inr show ?thesis by (cases ys) (auto simp: inj_map_eq_map [OF inj_Inr])
    qed
  qed
qed

lemma mapE_Inl: "(\<exists>e. mapE f xs = Inl e) = (\<exists>x \<in> set xs. isl (f x))"
  by (induction xs) (auto split: sum.splits simp: isl_def)

lemma prefix_filter: "prefix xs ys \<Longrightarrow> prefix (filter P xs) (filter P ys)"
  by (auto simp: prefix_def)

subsection \<open>The accessibility boost\<close>

lemma needMatch_empty: "needMatch {} n = 0"
  by (simp add: needMatch_def Let_def)

lemma countMatches_empty: "countMatches {} m ns = m"
  by (induction ns arbitrary: m) (simp_all add: needMatch_empty)

lemma needMatch_nonneg: "0 \<le> needMatch en n"
  by (simp add: needMatch_def Let_def)

lemma countMatches_nonneg: "0 \<le> m \<Longrightarrow> 0 \<le> countMatches en m ns"
  by (induction ns arbitrary: m) (simp_all add: needMatch_nonneg)

lemma needMatch_table:
  "needMatch en n =
     (if toLowerCase n = [] then 0 else tableCredit categoryTable en (toLowerCase n))"
  by (auto simp: needMatch_def categoryTable_def Let_def)

lemma countMatches_sum:
  "countMatches en m ns = m + sum_list (map (needMatch en) ns)"
  by (induction ns arbitrary: m) simp_all

lemma countMatches_matchCount: "countMatches en 0 ns = matchCount en ns"
proof -
  have "needMatch en =
          (\<lambda>n. if toLowerCase n = [] then 0 else tableCredit categoryTable en (toLowerCase n))"
    by (rule ext) (rule needMatch_table)
  then show ?thesis by (simp add: countMatches_sum matchCount_def)
qed

lemma boost_unfold:
  "computeAccessibilityBoost needs jb =
     capBoost (countMatches (enabledFeatures jb) 0 (case needs of None \<Rightarrow> [] | Some ns \<Rightarrow> ns))"
  by (cases needs) (simp_all add: computeAccessibilityBoost_def capBoost_def Let_def countMatches_empty)

lemma capBoost_mono: "m \<le> m' \<Longrightarrow> capBoost m \<le> capBoost m'"
  by (simp add: capBoost_def min_def)

lemma capBoost_range: "0 \<le> m \<Longrightarrow> 0 \<le> capBoost m \<and> capBoost m \<le> 0.2"
  by (simp add: capBoost_def)

lemma boost_range: "0 \<le> computeAccessibilityBoost needs jb \<and> computeAccessibilityBoost needs jb \<le> 0.2"
  unfolding boost_unfold by (rule capBoost_range) (simp add: countMatches_nonneg)

subsection \<open>Single-user ranking, case by case\<close>

lemma forUser_noProfile:
  "error (select_profile s u) = None \<Longrightarrow> data (select_profile s u) = None \<Longrightarrow>
   computeRecommendationsForUser s e c u n =
     ([SelectProfile u], Inr \<lparr>results = [], usedPostsFallback = False\<rparr>)"
  by (simp add: computeRecommendationsForUser_def)

lemma forUser_found:
  "error (select_profile s u) = None \<Longrightarrow> data (select_profile s u) = Some p \<Longrightarrow>
   loadJobs s = (cs, Inr (jobs, flag)) \<Longrightarrow>
   computeRecommendationsForUser s e c u n =
     (if jobs = [] then (SelectProfile u # cs, Inr \<lparr>results = [], usedPostsFallback = flag\<rparr>)
      else (SelectProfile u # cs @ [EmbedTexts [profileText p], EmbedTexts (map jobText jobs)],
            Inr \<lparr>results =
                   slice0 (case semanticRanking e c p jobs of
                             Inr scored \<Rightarrow> scored
                           | Inl err \<Rightarrow> keywordRanking p jobs) (topNOrDefault n),
                 usedPostsFallback = flag\<rparr>))"
  by (simp add: computeRecommendationsForUser_def split: sum.splits)

lemma forUser_Inr:
  assumes "snd (computeRecommendationsForUser s e c u n) = Inr r"
  shows "(data (select_profile s u) = None \<and> r = \<lparr>results = [], usedPostsFallback = False\<rparr>) \<or>
         (\<exists>p cs jobs flag. data (select_profile s u) = Some p \<and>
            loadJobs s = (cs, Inr (jobs, flag)) \<and>
            r = \<lparr>results =
                   (if jobs = [] then []
                    else slice0 (case semanticRanking e c p jobs of
                                   Inr scored \<Rightarrow> scored
                                 | Inl err \<Rightarrow> keywordRanking p jobs) (topNOrDefault n)),
                 usedPostsFallback = flag\<rparr>)"
proof (cases "error (select_profile s u)")
  case (Some x)
  with assms show ?thesis by (simp add: computeRecommendationsForUser_def)
next
  case None
  show ?thesis
  proof (cases "data (select_profile s u)")
    case n: None
    with None assms show ?thesis by (simp add: forUser_noProfile)
  next
    case (Some p)
    obtain cs lj where lj: "loadJobs s = (cs, lj)" by (cases "loadJobs s")
    show ?thesis
    proof (cases lj)
      case (Inl x)
      with lj None Some assms show ?thesis by (simp add: computeRecommendationsForUser_def)
    next
      case (Inr jf)
      obtain jobs flag where "jf = (jobs, flag)" by (cases jf)
      with Inr lj have l: "loadJobs s = (cs, Inr (jobs, flag))" by simp
      from assms show ?thesis
        unfolding forUser_found [OF None Some l] using Some l by (auto split: if_splits)
    qed
  qed
qed

lemma slice_sort_subseq:
  "subseq (map f (filter (\<lambda>c. score c = x) (slice0 (sortBy byScoreDesc scored) n))) (map f scored)"
proof -
  have "prefix (filter (\<lambda>c. score c = x) (slice0 (sortBy byScoreDesc scored) n))
               (filter (\<lambda>c. score c = x) (sortBy byScoreDesc scored))"
    by (rule prefix_filter) (rule prefix_slice0)
  then have "prefix (filter (\<lambda>c. score c = x) (slice0 (sortBy byScoreDesc scored) n))
                    (filter (\<lambda>c. score c = x) scored)"
    by (simp add: filter_sortBy)
  then have "subseq (filter (\<lambda>c. score c = x) (slice0 (sortBy byScoreDesc scored) n))
                    (filter (\<lambda>c. score c = x) scored)"
    by (rule prefix_imp_subseq)
  then have "subseq (filter (\<lambda>c. score c = x) (slice0 (sortBy byScoreDesc scored) n)) scored"
    by (rule subseq_order.trans) simp
  then show ?thesis by (rule subseq_map)
qed

lemma semanticRanking_unfold:
  "e [profileText p] = Inr pv \<Longrightarrow> e (map jobText jobs) = Inr je \<Longrightarrow>
   semanticRanking e c p jobs =
     (case mapE (semanticCandidate c p pv je) (zip jobs [0 ..< length jobs]) of
        Inl err \<Rightarrow> Inl err
      | Inr scored \<Rightarrow> Inr (sortBy byScoreDesc scored))"
  by (simp add: semanticRanking_def)

lemma semanticRanking_Inr:
  assumes "semanticRanking e c p jobs = Inr ranked"
  shows "\<exists>pv je scored. e [profileText p] = Inr pv \<and> e (map jobText jobs) = Inr je \<and>
           ranked = sortBy byScoreDesc scored \<and> length scored = length jobs \<and>
           (\<forall>i<length jobs. \<exists>base. c (nth_opt pv 0) (nth_opt je i) = Inr base \<and>
              scored ! i = JobScore (jobs ! i)
                 (base + computeAccessibilityBoost (accessibility_needs p) (Some (jobs ! i))))"
proof -
  from assms obtain pv where pv: "e [profileText p] = Inr pv"
    by (cases "e [profileText p]") (simp_all add: semanticRanking_def)
  from assms pv obtain je where je: "e (map jobText jobs) = Inr je"
    by (cases "e (map jobText jobs)") (simp_all add: semanticRanking_def)
  from assms obtain scored where
    m: "mapE (semanticCandidate c p pv je) (zip jobs [0 ..< length jobs]) = Inr scored" and
    r: "ranked = sortBy byScoreDesc scored"
    unfolding semanticRanking_unfold [OF pv je]
    by (cases "mapE (semanticCandidate c p pv je) (zip jobs [0 ..< length jobs])") simp_all
  from m have eq: "map (semanticCandidate c p pv je) (zip jobs [0 ..< length jobs]) = map Inr scored"
    by (simp add: mapE_Inr)
  from eq have "length (map (semanticCandidate c p pv je) (zip jobs [0 ..< length jobs]))
                  = length (map Inr scored)" by simp
  then have len: "length scored = length jobs" by simp
  have "\<exists>base. c (nth_opt pv 0) (nth_opt je i) = Inr base \<and>
              scored ! i = JobScore (jobs ! i)
                 (base + computeAccessibilityBoost (accessibility_needs p) (Some (jobs ! i)))"
    if i: "i < length jobs" for i
  proof -
    from eq have "map (semanticCandidate c p pv je) (zip jobs [0 ..< length jobs]) ! i
                    = map Inr scored ! i" by simp
    with i len have "semanticCandidate c p pv je (jobs ! i, i) = Inr (scored ! i)" by simp
    then show ?thesis
      by (cases "c (nth_opt pv 0) (nth_opt je i)") (simp_all add: semanticCandidate_def)
  qed
  with pv je r len show ?thesis by blast
qed

lemma isl_semanticCandidate:
  "isl (semanticCandidate c p pv je x) = isl (c (nth_opt pv 0) (nth_opt je (snd x)))"
  by (cases x) (simp add: semanticCandidate_def split: sum.splits)

lemma zip_upt_ex:
  "(\<exists>x \<in> set (zip xs [0 ..< length xs]). P (snd x)) = (\<exists>i. i < length xs \<and> P i)"
proof
  assume "\<exists>x \<in> set (zip xs [0 ..< length xs]). P (snd x)"
  then obtain j i where "(j, i) \<in> set (zip xs [0 ..< length xs])" and "P i" by auto
  moreover from this have "i < length xs" by (auto dest: set_zip_rightD)
  ultimately show "\<exists>i. i < length xs \<and> P i" by blast
next
  assume "\<exists>i. i < length xs \<and> P i"
  then obtain i where i: "i < length xs" and l: "P i" by blast
  from i have "(xs ! i, i) \<in> set (zip xs [0 ..< length xs])"
    by (auto simp: set_zip)
  with l show "\<exists>x \<in> set (zip xs [0 ..< length xs]). P (snd x)"
    by force
qed

lemma semanticRanking_Inl:
  "(\<exists>err. semanticRanking e c p jobs = Inl err) =
     (isl (e [profileText p]) \<or> isl (e (map jobText jobs)) \<or>
      (\<exists>pv je i. e [profileText p] = Inr pv \<and> e (map jobText jobs) = Inr je \<and>
                 i < length jobs \<and> isl (c (nth_opt pv 0) (nth_opt je i))))"
proof (cases "e [profileText p]")
  case (Inl a)
  then show ?thesis by (simp add: semanticRanking_def)
next
  case pv: (Inr pv)
  show ?thesis
  proof (cases "e (map jobText jobs)")
    case (Inl a)
    with pv show ?thesis by (simp add: semanticRanking_def)
  next
    case je: (Inr je)
    have "(\<exists>err. semanticRanking e c p jobs = Inl err) =
          (\<exists>err. mapE (semanticCandidate c p pv je) (zip jobs [0 ..< length jobs]) = Inl err)"
      unfolding semanticRanking_unfold [OF pv je]
      by (cases "mapE (semanticCandidate c p pv je) (zip jobs [0 ..< length jobs])") simp_all
    also have "\<dots> = (\<exists>x \<in> set (zip jobs [0 ..< length jobs]).
                        isl (c (nth_opt pv 0) (nth_opt je (snd x))))"
      unfolding mapE_Inl by (simp add: isl_semanticCandidate)
    also have "\<dots> = (\<exists>i. i < length jobs \<and> isl (c (nth_opt pv 0) (nth_opt je i)))"
      by (rule zip_upt_ex)
    finally show ?thesis using pv je by simp
  qed
qed

lemma job_keywordScore: "job (keywordScore p j) = j"
  by (simp add: keywordScore_def Let_def)

subsection \<open>Bulk ranking, step by step\<close>

lemma scorePair_Inr:
  "scorePair c profiles jobs pIdx pVec (jIdx, jVec) = Inr cand \<Longrightarrow>
     \<exists>base p. c (Some pVec) (Some jVec) = Inr base \<and> nth_opt profiles pIdx = Some p \<and>
       cand = JobIdScore (nth_opt (map id_job jobs) jIdx)
                (base + computeAccessibilityBoost (accessibility_needs p) (nth_opt jobs jIdx))"
  by (auto simp: scorePair_def split: sum.splits option.splits)

lemma scores_nth:
  assumes "mapE (scorePair c profiles jobs pIdx pVec) (zip [0 ..< length je] je) = Inr scores"
  shows "length scores = length je \<and>
         (\<forall>i<length je. scorePair c profiles jobs pIdx pVec (i, je ! i) = Inr (scores ! i))"
proof -
  from assms have eq: "map (scorePair c profiles jobs pIdx pVec) (zip [0 ..< length je] je)
                         = map Inr scores"
    by (simp add: mapE_Inr)
  from eq have "length (map (scorePair c profiles jobs pIdx pVec) (zip [0 ..< length je] je))
                  = length (map Inr scores)" by simp
  then have len: "length scores = length je" by simp
  have "scorePair c profiles jobs pIdx pVec (i, je ! i) = Inr (scores ! i)" if "i < length je" for i
  proof -
    from eq have "map (scorePair c profiles jobs pIdx pVec) (zip [0 ..< length je] je) ! i
                    = map Inr scores ! i" by simp
    with that len show ?thesis by simp
  qed
  with len show ?thesis by blast
qed

lemma rankLoop_Inr:
  "rankLoop c profiles jobs je n pvs acc = Inr res \<Longrightarrow> res k = Some rs \<Longrightarrow>
     acc k = Some rs \<or>
     (\<exists>pIdx pVec scores. (pIdx, pVec) \<in> set pvs \<and>
        mapE (scorePair c profiles jobs pIdx pVec) (zip [0 ..< length je] je) = Inr scores \<and>
        rs = slice0 (sortBy byScoreDesc scores) n)"
proof (induction pvs arbitrary: acc)
  case Nil
  then show ?case by simp
next
  case (Cons pv pvs)
  obtain pIdx pVec where pv: "pv = (pIdx, pVec)" by (cases pv)
  show ?case
  proof (cases "mapE (scorePair c profiles jobs pIdx pVec) (zip [0 ..< length je] je)")
    case (Inl e)
    with Cons.prems pv show ?thesis by simp
  next
    case (Inr scores)
    let ?key = "case nth_opt (map id_profile profiles) pIdx of None \<Rightarrow> ''undefined'' | Some k \<Rightarrow> k"
    let ?acc = "acc(?key \<mapsto> slice0 (sortBy byScoreDesc scores) n)"
    from Cons.prems(1) pv Inr have "rankLoop c profiles jobs je n pvs ?acc = Inr res" by simp
    from Cons.IH [OF this Cons.prems(2)]
    show ?thesis
    proof
      assume "?acc k = Some rs"
      then have "acc k = Some rs \<or> rs = slice0 (sortBy byScoreDesc scores) n"
        by (auto split: if_splits)
      with Inr pv show ?thesis by auto
    next
      assume "\<exists>pIdx pVec scores. (pIdx, pVec) \<in> set pvs \<and>
        mapE (scorePair c profiles jobs pIdx pVec) (zip [0 ..< length je] je) = Inr scores \<and>
        rs = slice0 (sortBy byScoreDesc scores) n"
      then show ?thesis by auto
    qed
  qed
qed

lemma forAll_Inr:
  assumes "snd (computeRecommendationsForAllUsers s e c n) = Inr r"
  shows "\<exists>cs profiles jobs pe je res.
           fetchProfilesAndJobs s = (cs, Inr (profiles, jobs, usedPostsFallback r)) \<and>
           e (map profileText profiles) = Inr pe \<and> e (map jobText jobs) = Inr je \<and>
           rankLoop c profiles jobs je (topNOrDefault n) (zip [0 ..< length pe] pe) Map.empty
             = Inr (results r)"
proof -
  obtain cs f where f: "fetchProfilesAndJobs s = (cs, f)" by (cases "fetchProfilesAndJobs s")
  show ?thesis
  proof (cases f)
    case (Inl x)
    with f assms show ?thesis by (simp add: computeRecommendationsForAllUsers_def)
  next
    case (Inr t)
    obtain profiles jobs flag where t: "t = (profiles, jobs, flag)" by (cases t)
    show ?thesis
    proof (cases "e (map profileText profiles)")
      case (Inl x)
      with f Inr t assms show ?thesis by (simp add: computeRecommendationsForAllUsers_def Let_def)
    next
      case pe: (Inr pe)
      show ?thesis
      proof (cases "e (map jobText jobs)")
        case (Inl x)
        with f Inr t pe assms show ?thesis by (simp add: computeRecommendationsForAllUsers_def Let_def)
      next
        case je: (Inr je)
        show ?thesis
        proof (cases "rankLoop c profiles jobs je (topNOrDefault n) (zip [0 ..< length pe] pe) Map.empty")
          case (Inl x)
          with f Inr t pe je assms show ?thesis by (simp add: computeRecommendationsForAllUsers_def Let_def)
        next
          case res: (Inr res)
          with f Inr t pe je assms have "r = \<lparr>results = res, usedPostsFallback = flag\<rparr>"
            by (simp add: computeRecommendationsForAllUsers_def Let_def)
          with f Inr t pe je res show ?thesis by auto
        qed
      qed
    qed
  qed
qed

lemma fetch_Inr:
  "fetchProfilesAndJobs s = (cs, Inr (profiles, jobs, flag)) \<Longrightarrow>
     \<exists>cs'. loadJobs s = (cs', Inr (jobs, flag)) \<and> error (select_profiles s) = None"
  by (auto simp: fetchProfilesAndJobs_def split: option.splits prod.splits sum.splits)

subsection \<open>Loading and the accessibility text\<close>

lemma loadJobs_flag:
  "loadJobs s = (cs, Inr (jobs, flag)) \<Longrightarrow>
     flag = (error (select_jobs s) \<noteq> None \<or> data (select_jobs s) = None)"
  by (auto simp: loadJobs_def split: option.splits)

lemma loadJobs_primary:
  "loadJobs s = (cs, Inr (jobs, False)) \<Longrightarrow>
     \<exists>rows. data (select_jobs s) = Some rows \<and> jobs = map jobOfJobsRow rows"
  by (auto simp: loadJobs_def split: option.splits)

lemma loadJobs_posts:
  "loadJobs s = (cs, Inr (jobs, True)) \<Longrightarrow>
     jobs = map jobOfPost (case data (select_posts s) of None \<Rightarrow> [] | Some ps \<Rightarrow> ps)"
  by (auto simp: loadJobs_def split: option.splits)

lemma getField_falsy: "\<not> truthy m \<Longrightarrow> getField m k = JUndefined"
  by (cases m) simp_all

lemma jobAccessibilityToText_Some:
  "jobAccessibilityToText (Some j) =
     join (truthyKeys (getField (job_metadata j) ''accessibility_features'') @
           truthyKeys (accessibility_features j))"
  by (simp add: jobAccessibilityToText_def Let_def getField_falsy)

lemma truthyKeys_not_object: "\<not> isObject v \<Longrightarrow> truthyKeys v = []"
  by (simp add: truthyKeys_def)

lemma jobsRow_text: "jobAccessibilityToText (Some (jobOfJobsRow r)) = []"
  by (simp add: jobAccessibilityToText_Some jobOfJobsRow_def truthyKeys_def)

lemma no_text_no_boost:
  "jobAccessibilityToText jb = [] \<Longrightarrow> computeAccessibilityBoost needs jb = 0"
  by (cases needs) (simp_all add: computeAccessibilityBoost_def enabledFeatures_def toLowerCase_def)

lemma boost_needs_object:
  assumes "computeAccessibilityBoost needs (Some (jobOfPost p)) \<noteq> 0"
  shows "isObject (getField (posts_job_metadata p) ''accessibility_features'')"
proof (rule ccontr)
  assume "\<not> isObject (getField (posts_job_metadata p) ''accessibility_features'')"
  then have "jobAccessibilityToText (Some (jobOfPost p)) = []"
    by (simp add: jobAccessibilityToText_Some jobOfPost_def truthyKeys_not_object)
  with assms show False by (simp add: no_text_no_boost)
qed


subsection \<open>The fallback flag; loading from the sample clients\<close>

lemma fetch_flag:
  "fetchProfilesAndJobs s = (cs, Inr (profiles, jobs, flag)) \<Longrightarrow>
     flag = (error (select_jobs s) \<noteq> None \<or> data (select_jobs s) = None)"
proof -
  assume "fetchProfilesAndJobs s = (cs, Inr (profiles, jobs, flag))"
  from fetch_Inr [OF this] obtain cs' where "loadJobs s = (cs', Inr (jobs, flag))" by blast
  then show ?thesis by (rule loadJobs_flag)
qed

lemma forUser_flag:
  assumes "snd (computeRecommendationsForUser s e c u n) = Inr r"
  shows "usedPostsFallback r =
           (data (select_profile s u) \<noteq> None \<and>
            (error (select_jobs s) \<noteq> None \<or> data (select_jobs s) = None))"
  using forUser_Inr [OF assms]
proof
  assume "data (select_profile s u) = None \<and> r = \<lparr>results = [], usedPostsFallback = False\<rparr>"
  then show ?thesis by simp
next
  assume "\<exists>p cs jobs flag. data (select_profile s u) = Some p \<and>
            loadJobs s = (cs, Inr (jobs, flag)) \<and>
            r = \<lparr>results =
                   (if jobs = [] then []
                    else slice0 (case semanticRanking e c p jobs of
                                   Inr scored \<Rightarrow> scored
                                 | Inl err \<Rightarrow> keywordRanking p jobs) (topNOrDefault n)),
                 usedPostsFallback = flag\<rparr>"
  then obtain p cs jobs flag where p: "data (select_profile s u) = Some p"
    and l: "loadJobs s = (cs, Inr (jobs, flag))" and f: "usedPostsFallback r = flag"
    by auto
  from loadJobs_flag [OF l] p f show ?thesis by simp
qed

lemma forUser_flag_path:
  "map_sum id usedPostsFallback (snd (computeRecommendationsForUser s e c u n)) =
   map_sum id usedPostsFallback (snd (computeRecommendationsForUser s e' c' u n'))"
proof (cases "error (select_profile s u)")
  case (Some x)
  then show ?thesis by (simp add: computeRecommendationsForUser_def)
next
  case None
  show ?thesis
  proof (cases "data (select_profile s u)")
    case n: None
    with None show ?thesis by (simp add: forUser_noProfile)
  next
    case (Some p)
    obtain cs lj where lj: "loadJobs s = (cs, lj)" by (cases "loadJobs s")
    show ?thesis
    proof (cases lj)
      case (Inl x)
      with lj None Some show ?thesis by (simp add: computeRecommendationsForUser_def)
    next
      case (Inr jf)
      obtain jobs flag where "jf = (jobs, flag)" by (cases jf)
      with Inr lj have l: "loadJobs s = (cs, Inr (jobs, flag))" by simp
      show ?thesis unfolding forUser_found [OF None Some l] by simp
    qed
  qed
qed

lemma load_jobsClient:
  "loadJobs jobsClient = ([SelectJobs], Inr ([jobOfJobsRow jobsRowA, jobOfJobsRow jobsRowB, jobOfJobsRow jobsRowC], False))"
  by (simp add: loadJobs_def jobsClient_def found_def)

lemma load_postsClient:
  "loadJobs postsClient = ([SelectJobs, SelectPosts], Inr ([jobOfPost postA, jobOfPost postB], True))"
  by (simp add: loadJobs_def postsClient_def found_def failed_def)

lemma load_emptyJobsClient: "loadJobs emptyJobsClient = ([SelectJobs], Inr ([], False))"
  by (simp add: loadJobs_def emptyJobsClient_def found_def)

lemma keyword_postsClient:
  "keywordRanking sampleProfile [jobOfPost postA, jobOfPost postB] =
     [JobScore (jobOfPost postA) 1, JobScore (jobOfPost postB) 1]"
  by (simp add: keywordRanking_def keywordScore_def profileWords_def sampleProfile_def
      jobOfPost_def postA_def postB_def isSpace_def isSeparator_def toLowerCase_def
      computeAccessibilityBoost_def enabledFeatures_def jobAccessibilityToText_def
      truthyKeys_def capBoost_def needMatch_def sortBy_def byScoreDesc_def Let_def)

subsection \<open>The ranked lists of both entry points\<close>

lemma ranking_scored:
  "\<exists>scored. (case semanticRanking e c p jobs of Inr r \<Rightarrow> r | Inl err \<Rightarrow> keywordRanking p jobs)
              = sortBy byScoreDesc scored \<and> map job scored = jobs"
proof (cases "semanticRanking e c p jobs")
  case (Inl err)
  have "map job (map (keywordScore p) jobs) = jobs"
    by (simp add: job_keywordScore comp_def)
  with Inl show ?thesis by (auto simp: keywordRanking_def)
next
  case (Inr ranked)
  from semanticRanking_Inr [OF Inr] obtain scored where
    r: "ranked = sortBy byScoreDesc scored" and len: "length scored = length jobs" and
    n: "\<forall>i<length jobs. \<exists>base. scored ! i = JobScore (jobs ! i)
                 (base + computeAccessibilityBoost (accessibility_needs p) (Some (jobs ! i)))"
    by blast
  have "map job scored = jobs"
  proof (rule nth_equalityI)
    show "length (map job scored) = length jobs" using len by simp
  next
    fix i assume "i < length (map job scored)"
    with len have i: "i < length jobs" by simp
    with n obtain base where "scored ! i = JobScore (jobs ! i)
                 (base + computeAccessibilityBoost (accessibility_needs p) (Some (jobs ! i)))"
      by blast
    with i len show "map job scored ! i = jobs ! i" by simp
  qed
  with Inr r show ?thesis by auto
qed

lemma forUser_list:
  assumes "snd (computeRecommendationsForUser s e c u n) = Inr r"
  shows "results r = [] \<or>
         (\<exists>p cs jobs flag scored. data (select_profile s u) = Some p \<and>
            loadJobs s = (cs, Inr (jobs, flag)) \<and> map job scored = jobs \<and>
            (case semanticRanking e c p jobs of Inr r \<Rightarrow> r | Inl err \<Rightarrow> keywordRanking p jobs)
               = sortBy byScoreDesc scored \<and>
            results r = slice0 (sortBy byScoreDesc scored) (topNOrDefault n))"
  using forUser_Inr [OF assms]
proof
  assume "data (select_profile s u) = None \<and> r = \<lparr>results = [], usedPostsFallback = False\<rparr>"
  then show ?thesis by simp
next
  assume "\<exists>p cs jobs flag. data (select_profile s u) = Some p \<and>
            loadJobs s = (cs, Inr (jobs, flag)) \<and>
            r = \<lparr>results =
                   (if jobs = [] then []
                    else slice0 (case semanticRanking e c p jobs of
                                   Inr scored \<Rightarrow> scored
                                 | Inl err \<Rightarrow> keywordRanking p jobs) (topNOrDefault n)),
                 usedPostsFallback = flag\<rparr>"
  then obtain p cs jobs flag where p: "data (select_profile s u) = Some p"
    and l: "loadJobs s = (cs, Inr (jobs, flag))"
    and r: "results r = (if jobs = [] then []
                    else slice0 (case semanticRanking e c p jobs of
                                   Inr scored \<Rightarrow> scored
                                 | Inl err \<Rightarrow> keywordRanking p jobs) (topNOrDefault n))"
    by auto
  show ?thesis
  proof (cases "jobs = []")
    case True
    with r show ?thesis by simp
  next
    case False
    from ranking_scored [where e = e and c = c and p = p and jobs = jobs] obtain scored where
      "(case semanticRanking e c p jobs of Inr r \<Rightarrow> r | Inl err \<Rightarrow> keywordRanking p jobs)
              = sortBy byScoreDesc scored" and "map job scored = jobs" by blast
    with False r p l show ?thesis by auto
  qed
qed

lemma forAll_list:
  assumes "snd (computeRecommendationsForAllUsers s e c n) = Inr rb" and "results rb k = Some rs"
  shows "\<exists>cs profiles jobs pe je pIdx pVec scores.
           fetchProfilesAndJobs s = (cs, Inr (profiles, jobs, usedPostsFallback rb)) \<and>
           e (map profileText profiles) = Inr pe \<and> e (map jobText jobs) = Inr je \<and>
           mapE (scorePair c profiles jobs pIdx pVec) (zip [0 ..< length je] je) = Inr scores \<and>
           rs = slice0 (sortBy byScoreDesc scores) (topNOrDefault n)"
proof -
  from forAll_Inr [OF assms(1)] obtain cs profiles jobs pe je where
    f: "fetchProfilesAndJobs s = (cs, Inr (profiles, jobs, usedPostsFallback rb))" and
    pe: "e (map profileText profiles) = Inr pe" and je: "e (map jobText jobs) = Inr je" and
    l: "rankLoop c profiles jobs je (topNOrDefault n) (zip [0 ..< length pe] pe) Map.empty
             = Inr (results rb)" by auto
  from rankLoop_Inr [OF l assms(2)] obtain pIdx pVec scores where
    "mapE (scorePair c profiles jobs pIdx pVec) (zip [0 ..< length je] je) = Inr scores" and
    "rs = slice0 (sortBy byScoreDesc scores) (topNOrDefault n)" by auto
  with f pe je show ?thesis by blast
qed

lemma scores_shape:
  assumes "mapE (scorePair c profiles jobs pIdx pVec) (zip [0 ..< length je] je) = Inr scores"
  shows "length scores = length je \<and>
         (\<forall>i<length je. \<exists>base p. c (Some pVec) (Some (je ! i)) = Inr base \<and>
             nth_opt profiles pIdx = Some p \<and>
             scores ! i = JobIdScore (nth_opt (map id_job jobs) i)
                (base + computeAccessibilityBoost (accessibility_needs p) (nth_opt jobs i)))"
  using scores_nth [OF assms] scorePair_Inr by metis

subsection \<open>The keyword and semantic rankings of the sample jobs\<close>

lemma select_jobsClient:
  "error (select_profile jobsClient ''u1'') = None"
  "data (select_profile jobsClient ''u1'') = Some sampleProfile"
  by (simp_all add: jobsClient_def found_def)

lemma keyword_jobsClient:
  "keywordRanking sampleProfile
     [jobOfJobsRow jobsRowA, jobOfJobsRow jobsRowB, jobOfJobsRow jobsRowC] =
     [JobScore (jobOfJobsRow jobsRowB) 2, JobScore (jobOfJobsRow jobsRowA) 0,
      JobScore (jobOfJobsRow jobsRowC) 0]"
  by (simp add: keywordRanking_def keywordScore_def profileWords_def sampleProfile_def
      jobOfJobsRow_def jobsRowA_def jobsRowB_def jobsRowC_def isSpace_def isSeparator_def
      toLowerCase_def computeAccessibilityBoost_def enabledFeatures_def
      jobAccessibilityToText_def truthyKeys_def sortBy_def byScoreDesc_def Let_def)

lemma semantic_jobsClient:
  "semanticRanking unitEmbedder cosineSimilarity_spec sampleProfile
     [jobOfJobsRow jobsRowA, jobOfJobsRow jobsRowB, jobOfJobsRow jobsRowC] =
     Inr [JobScore (jobOfJobsRow jobsRowB) 1, JobScore (jobOfJobsRow jobsRowA) 0,
          JobScore (jobOfJobsRow jobsRowC) 0]"
  by (simp add: semanticRanking_def semanticCandidate_def unitEmbedder_def
      cosineSimilarity_spec_def profileText_def jobText_def trim_def sampleProfile_def
      jobOfJobsRow_def jobsRowA_def jobsRowB_def jobsRowC_def isSpace_def
      computeAccessibilityBoost_def enabledFeatures_def toLowerCase_def
      jobAccessibilityToText_def truthyKeys_def sortBy_def byScoreDesc_def nth_opt_def Let_def)

lemma ragged_jobsClient:
  "raggedEmbedder [profileText sampleProfile] = Inr [[1, 0]]"
  "raggedEmbedder (map jobText [jobOfJobsRow jobsRowA, jobOfJobsRow jobsRowB, jobOfJobsRow jobsRowC])
     = Inr [[0, 1, 0], [0, 1, 0], [0, 1, 0]]"
  by (simp_all add: raggedEmbedder_def)

lemma semantic_ragged:
  "semanticRanking raggedEmbedder cosineSimilarity_spec sampleProfile
     [jobOfJobsRow jobsRowA, jobOfJobsRow jobsRowB, jobOfJobsRow jobsRowC] =
     Inl (Error ''vector length mismatch'')"
  by (simp add: semanticRanking_def semanticCandidate_def raggedEmbedder_def
      cosineSimilarity_spec_def nth_opt_def)

subsection \<open>Where a candidate comes from\<close>

lemma ranking_provenance:
  "(\<exists>pv je. e [profileText p] = Inr pv \<and> e (map jobText jobs) = Inr je \<and>
      (\<forall>x \<in> set (case semanticRanking e c p jobs of Inr r \<Rightarrow> r | Inl err \<Rightarrow> keywordRanking p jobs).
         \<exists>i base. i < length jobs \<and> c (nth_opt pv 0) (nth_opt je i) = Inr base \<and>
           x = JobScore (jobs ! i)
                 (base + computeAccessibilityBoost (accessibility_needs p) (Some (jobs ! i)))))
   \<or> (\<forall>x \<in> set (case semanticRanking e c p jobs of Inr r \<Rightarrow> r | Inl err \<Rightarrow> keywordRanking p jobs).
         \<exists>j \<in> set jobs. x = keywordScore p j)"
proof (cases "semanticRanking e c p jobs")
  case (Inl err)
  then show ?thesis by (auto simp: keywordRanking_def set_sortBy)
next
  case (Inr ranked)
  from semanticRanking_Inr [OF Inr] obtain pv je scored where
    pv: "e [profileText p] = Inr pv" and je: "e (map jobText jobs) = Inr je" and
    r: "ranked = sortBy byScoreDesc scored" and len: "length scored = length jobs" and
    n: "\<forall>i<length jobs. \<exists>base. c (nth_opt pv 0) (nth_opt je i) = Inr base \<and>
              scored ! i = JobScore (jobs ! i)
                 (base + computeAccessibilityBoost (accessibility_needs p) (Some (jobs ! i)))"
    by blast
  have "\<exists>i base. i < length jobs \<and> c (nth_opt pv 0) (nth_opt je i) = Inr base \<and>
           x = JobScore (jobs ! i)
                 (base + computeAccessibilityBoost (accessibility_needs p) (Some (jobs ! i)))"
    if "x \<in> set ranked" for x
  proof -
    from that r have "x \<in> set scored" by (simp add: set_sortBy)
    then obtain i where "i < length scored" and "scored ! i = x"
      by (auto simp: in_set_conv_nth)
    with len have i: "i < length jobs" and x: "scored ! i = x" by simp_all
    from n i obtain base where "c (nth_opt pv 0) (nth_opt je i) = Inr base" and
      "scored ! i = JobScore (jobs ! i)
                 (base + computeAccessibilityBoost (accessibility_needs p) (Some (jobs ! i)))"
      by (elim allE [of _ i] impE exE conjE)
    with i x show ?thesis by (intro exI [of _ i] exI [of _ base]) simp
  qed
  with Inr pv je show ?thesis by auto
qed

lemma ranking_is_JobScore:
  assumes "x \<in> set (case semanticRanking e c p jobs of Inr r \<Rightarrow> r | Inl err \<Rightarrow> keywordRanking p jobs)"
  shows "is_JobScore x \<and> job x \<in> set jobs"
  using ranking_provenance [where e = e and c = c and p = p and jobs = jobs]
proof
  assume "\<exists>pv je. e [profileText p] = Inr pv \<and> e (map jobText jobs) = Inr je \<and>
      (\<forall>x \<in> set (case semanticRanking e c p jobs of Inr r \<Rightarrow> r | Inl err \<Rightarrow> keywordRanking p jobs).
         \<exists>i base. i < length jobs \<and> c (nth_opt pv 0) (nth_opt je i) = Inr base \<and>
           x = JobScore (jobs ! i)
                 (base + computeAccessibilityBoost (accessibility_needs p) (Some (jobs ! i))))"
  with assms obtain i base where "i < length jobs" and
    "x = JobScore (jobs ! i)
           (base + computeAccessibilityBoost (accessibility_needs p) (Some (jobs ! i)))"
    by blast
  then show ?thesis by simp
next
  assume "\<forall>x \<in> set (case semanticRanking e c p jobs of Inr r \<Rightarrow> r | Inl err \<Rightarrow> keywordRanking p jobs).
         \<exists>j \<in> set jobs. x = keywordScore p j"
  with assms obtain j where "j \<in> set jobs" and "x = keywordScore p j" by blast
  then show ?thesis by (simp add: keywordScore_def Let_def)
qed

lemma nth_opt_upt: "map (nth_opt xs) [0 ..< length xs] = map Some xs"
  by (rule nth_equalityI) (simp_all add: nth_opt_def)

lemma scores_shape_nth:
  assumes "mapE (scorePair c profiles jobs pIdx pVec) (zip [0 ..< length je] je) = Inr scores"
    and "i < length je"
  shows "\<exists>base p. c (Some pVec) (Some (je ! i)) = Inr base \<and>
             nth_opt profiles pIdx = Some p \<and>
             scores ! i = JobIdScore (nth_opt (map id_job jobs) i)
                (base + computeAccessibilityBoost (accessibility_needs p) (nth_opt jobs i))"
proof -
  from scores_nth [OF assms(1)] assms(2)
  have "scorePair c profiles jobs pIdx pVec (i, je ! i) = Inr (scores ! i)" by simp
  then show ?thesis by (rule scorePair_Inr)
qed

lemma scores_jobIds:
  assumes "mapE (scorePair c profiles jobs pIdx pVec) (zip [0 ..< length je] je) = Inr scores"
  shows "map jobId scores = map (nth_opt (map id_job jobs)) [0 ..< length je]"
proof (rule nth_equalityI)
  from scores_nth [OF assms] show "length (map jobId scores)
      = length (map (nth_opt (map id_job jobs)) [0 ..< length je])" by simp
next
  fix i assume "i < length (map jobId scores)"
  with scores_nth [OF assms] have i: "i < length je" and l: "i < length scores" by simp_all
  from scores_shape_nth [OF assms i] obtain base and p :: UserProfile where
    "scores ! i = JobIdScore (nth_opt (map id_job jobs) i)
                (base + computeAccessibilityBoost (accessibility_needs p) (nth_opt jobs i))"
    by (elim exE conjE)
  with i l show "map jobId scores ! i = map (nth_opt (map id_job jobs)) [0 ..< length je] ! i"
    by simp
qed

lemma count_foldl:
  "foldl (\<lambda>acc word. acc + (if P word then 1 else 0)) a ws = a + real (length (filter P ws))"
  by (induction ws arbitrary: a) simp_all

lemma score_keywordScore:
  "score (keywordScore p j) =
     real (length (filter (includes_str
        (toLowerCase (orElse (description j) [] @ '' '' @ orElse (content j) [] @ '' '' @
                      orElse (title j) [] @ '' '' @ jobAccessibilityToText (Some j))))
        (profileWords p)))
     + computeAccessibilityBoost (accessibility_needs p) (Some j) * 20"
  by (simp add: keywordScore_def Let_def count_foldl)

subsection \<open>Both entry points on the sample client\<close>

lemma unitEmbedder_contract: "\<forall>texts vs. unitEmbedder texts = Inr vs \<longrightarrow> length vs = length texts"
  by (auto simp: unitEmbedder_def)

lemma fetch_jobsClient:
  "fetchProfilesAndJobs jobsClient =
     ([SelectProfiles, SelectJobs],
      Inr ([sampleProfile],
           [jobOfJobsRow jobsRowA, jobOfJobsRow jobsRowB, jobOfJobsRow jobsRowC], False))"
  unfolding fetchProfilesAndJobs_def load_jobsClient by (simp add: jobsClient_def found_def)

lemma bulk_jobsClient:
  "snd (computeRecommendationsForAllUsers jobsClient unitEmbedder cosineSimilarity_spec (Some 2)) =
     Inr \<lparr>results = [''u1'' \<mapsto> [JobIdScore (Some ''j2'') 1, JobIdScore (Some ''j1'') 0]],
          usedPostsFallback = False\<rparr>"
  unfolding computeRecommendationsForAllUsers_def fetch_jobsClient
  by (simp add: unitEmbedder_def scorePair_def cosineSimilarity_spec_def profileText_def
      jobText_def trim_def sampleProfile_def jobOfJobsRow_def jobsRowA_def jobsRowB_def
      jobsRowC_def isSpace_def computeAccessibilityBoost_def enabledFeatures_def
      toLowerCase_def jobAccessibilityToText_def truthyKeys_def sortBy_def byScoreDesc_def
      slice0_def nth_opt_def Let_def)

lemma single_jobsClient:
  "snd (computeRecommendationsForUser jobsClient unitEmbedder cosineSimilarity_spec ''u1'' (Some 2)) =
     Inr \<lparr>results = [JobScore (jobOfJobsRow jobsRowB) 1, JobScore (jobOfJobsRow jobsRowA) 0],
          usedPostsFallback = False\<rparr>"
  unfolding forUser_found [OF select_jobsClient load_jobsClient]
  by (simp add: semantic_jobsClient slice0_def)


subsection \<open>The normalizers on run-time values\<close>



lemma join_append:
  "xs \<noteq> [] \<Longrightarrow> ys \<noteq> [] \<Longrightarrow> join (xs @ ys) = join xs @ '' '' @ join ys"
proof (induction xs rule: join.induct)
  case 1
  then show ?case by simp
next
  case (2 x)
  then show ?case by (cases ys) simp_all
next
  case (3 x y zs)
  then show ?case by simp
qed

lemma length_join:
  "xs \<noteq> [] \<Longrightarrow> length (join xs) + 1 = sum_list (map length xs) + length xs"
  by (induction xs rule: join.induct) simp_all
















section \<open>The claims\<close>

text \<open>
  C1, as amended. Every candidate of a list returned by bulk ranking has the shape
  \<^verbatim>\<open>{ jobId, score }\<close>: its \<^verbatim>\<open>jobId\<close> is \<^verbatim>\<open>jobIds[i]\<close> for the index of a job vector,
  which is the id of the job at that index when the embedder returned one vector for each
  job text. Every candidate returned by single-user ranking, on the semantic and on the
  keyword path, has the shape \<^verbatim>\<open>{ job, score }\<close> and carries the whole record of one of
  the loaded jobs.
\<close>

theorem candidate_shapes:
  "(snd (computeRecommendationsForAllUsers s e c n) = Inr rb \<and> results rb k = Some rs
      \<and> cand \<in> set rs \<longrightarrow>
      is_JobIdScore cand \<and>
      (\<exists>cs profiles jobs je i.
          fetchProfilesAndJobs s = (cs, Inr (profiles, jobs, usedPostsFallback rb)) \<and>
          e (map jobText jobs) = Inr je \<and> i < length je \<and>
          jobId cand = nth_opt (map id_job jobs) i \<and>
          (length je = length jobs \<longrightarrow>
             jobs ! i \<in> set jobs \<and> cand = JobIdScore (Some (id_job (jobs ! i))) (score cand))))
   \<and> (snd (computeRecommendationsForUser s e c u n) = Inr r \<and> cand' \<in> set (results r) \<longrightarrow>
      is_JobScore cand' \<and>
      (\<exists>cs jobs flag. loadJobs s = (cs, Inr (jobs, flag)) \<and> job cand' \<in> set jobs))"
proof (intro conjI impI)
  assume a: "snd (computeRecommendationsForAllUsers s e c n) = Inr rb \<and> results rb k = Some rs
      \<and> cand \<in> set rs"
  from forAll_list [of s e c n rb k rs] a obtain cs profiles jobs pe je pIdx pVec scores where
    f: "fetchProfilesAndJobs s = (cs, Inr (profiles, jobs, usedPostsFallback rb))" and
    je: "e (map jobText jobs) = Inr je" and
    m: "mapE (scorePair c profiles jobs pIdx pVec) (zip [0 ..< length je] je) = Inr scores" and
    rs: "rs = slice0 (sortBy byScoreDesc scores) (topNOrDefault n)"
    by (elim exE conjE) blast
  from a rs have "cand \<in> set scores" using set_slice0 set_sortBy by fastforce
  then obtain i where i: "i < length scores" and ci: "scores ! i = cand"
    by (auto simp: in_set_conv_nth)
  from scores_nth [OF m] i have ij: "i < length je" by simp
  from scores_shape_nth [OF m ij] obtain base and p :: UserProfile where
    "scores ! i = JobIdScore (nth_opt (map id_job jobs) i)
                (base + computeAccessibilityBoost (accessibility_needs p) (nth_opt jobs i))"
    by (elim exE conjE)
  with ci have cand: "cand = JobIdScore (nth_opt (map id_job jobs) i)
                (base + computeAccessibilityBoost (accessibility_needs p) (nth_opt jobs i))"
    by simp
  then show "is_JobIdScore cand" by simp
  from cand have id: "jobId cand = nth_opt (map id_job jobs) i" by simp
  have "jobs ! i \<in> set jobs \<and> cand = JobIdScore (Some (id_job (jobs ! i))) (score cand)"
    if "length je = length jobs"
  proof -
    from that ij have lt: "i < length jobs" by simp
    with cand show ?thesis by (simp add: nth_opt_def)
  qed
  with f je ij id show "\<exists>cs profiles jobs je i.
          fetchProfilesAndJobs s = (cs, Inr (profiles, jobs, usedPostsFallback rb)) \<and>
          e (map jobText jobs) = Inr je \<and> i < length je \<and>
          jobId cand = nth_opt (map id_job jobs) i \<and>
          (length je = length jobs \<longrightarrow>
             jobs ! i \<in> set jobs \<and> cand = JobIdScore (Some (id_job (jobs ! i))) (score cand))"
    by blast
next
  assume a: "snd (computeRecommendationsForUser s e c u n) = Inr r \<and> cand' \<in> set (results r)"
  then have ne: "results r \<noteq> []" by auto
  from a have "snd (computeRecommendationsForUser s e c u n) = Inr r" by simp
  from forUser_list [OF this] ne
  have "\<exists>p cs jobs flag scored. data (select_profile s u) = Some p \<and>
            loadJobs s = (cs, Inr (jobs, flag)) \<and> map job scored = jobs \<and>
            (case semanticRanking e c p jobs of Inr r \<Rightarrow> r | Inl err \<Rightarrow> keywordRanking p jobs)
               = sortBy byScoreDesc scored \<and>
            results r = slice0 (sortBy byScoreDesc scored) (topNOrDefault n)"
    by simp
  then obtain p cs jobs flag scored where
    l: "loadJobs s = (cs, Inr (jobs, flag))" and
    k: "(case semanticRanking e c p jobs of Inr r \<Rightarrow> r | Inl err \<Rightarrow> keywordRanking p jobs)
               = sortBy byScoreDesc scored" and
    r: "results r = slice0 (sortBy byScoreDesc scored) (topNOrDefault n)"
    by (elim exE conjE)
  from a r have "cand' \<in> set (sortBy byScoreDesc scored)" using set_slice0 by fastforce
  with k have "cand' \<in> set (case semanticRanking e c p jobs of Inr r \<Rightarrow> r
                                | Inl err \<Rightarrow> keywordRanking p jobs)" by simp
  from ranking_is_JobScore [OF this] l
  show "is_JobScore cand'"
    and "\<exists>cs jobs flag. loadJobs s = (cs, Inr (jobs, flag)) \<and> job cand' \<in> set jobs"
    by blast+
qed

theorem candidate_shapes_witness:
  "snd (computeRecommendationsForAllUsers jobsClient unitEmbedder cosineSimilarity_spec (Some 2)) =
     Inr \<lparr>results = [''u1'' \<mapsto> [JobIdScore (Some ''j2'') 1, JobIdScore (Some ''j1'') 0]],
          usedPostsFallback = False\<rparr>
   \<and> is_JobIdScore (JobIdScore (Some ''j2'') 1)
   \<and> (\<exists>cs profiles jobs je i.
         fetchProfilesAndJobs jobsClient = (cs, Inr (profiles, jobs, False)) \<and>
         unitEmbedder (map jobText jobs) = Inr je \<and> length je = length jobs \<and>
         jobs ! i \<in> set jobs \<and> Some ''j2'' = Some (id_job (jobs ! i)))
   \<and> snd (computeRecommendationsForUser jobsClient unitEmbedder cosineSimilarity_spec ''u1'' (Some 2)) =
     Inr \<lparr>results = [JobScore (jobOfJobsRow jobsRowB) 1, JobScore (jobOfJobsRow jobsRowA) 0],
          usedPostsFallback = False\<rparr>
   \<and> is_JobScore (JobScore (jobOfJobsRow jobsRowB) 1)
   \<and> (\<exists>cs jobs flag. loadJobs jobsClient = (cs, Inr (jobs, flag)) \<and>
         job (JobScore (jobOfJobsRow jobsRowB) 1) \<in> set jobs)"
proof -
  have b: "snd (computeRecommendationsForAllUsers jobsClient unitEmbedder cosineSimilarity_spec
                  (Some 2)) =
             Inr \<lparr>results = [''u1'' \<mapsto> [JobIdScore (Some ''j2'') 1, JobIdScore (Some ''j1'') 0]],
                  usedPostsFallback = False\<rparr>
           \<and> results \<lparr>results = [''u1'' \<mapsto> [JobIdScore (Some ''j2'') 1,
                                              JobIdScore (Some ''j1'') 0]],
                       usedPostsFallback = False\<rparr> ''u1''
               = Some [JobIdScore (Some ''j2'') 1, JobIdScore (Some ''j1'') 0]
           \<and> JobIdScore (Some ''j2'') 1 \<in> set [JobIdScore (Some ''j2'') 1, JobIdScore (Some ''j1'') 0]"
    using bulk_jobsClient by simp
  from candidate_shapes [THEN conjunct1, THEN mp, OF b]
  obtain cs profiles jobs je i where
    f0: "fetchProfilesAndJobs jobsClient =
          (cs, Inr (profiles, jobs,
             usedPostsFallback \<lparr>results = [''u1'' \<mapsto> [JobIdScore (Some ''j2'') 1,
                                                        JobIdScore (Some ''j1'') 0]],
                                usedPostsFallback = False\<rparr>))" and
    je: "unitEmbedder (map jobText jobs) = Inr je" and
    h: "length je = length jobs \<longrightarrow>
          jobs ! i \<in> set jobs \<and>
          JobIdScore (Some ''j2'') 1 =
            JobIdScore (Some (id_job (jobs ! i))) (score (JobIdScore (Some ''j2'') 1))"
    by (elim exE conjE)
  from f0 have f: "fetchProfilesAndJobs jobsClient = (cs, Inr (profiles, jobs, False))" by simp
  from je unitEmbedder_contract have len: "length je = length jobs" by fastforce
  with h have "jobs ! i \<in> set jobs \<and> Some ''j2'' = Some (id_job (jobs ! i))" by simp
  with f je len have bulk: "\<exists>cs profiles jobs je i.
         fetchProfilesAndJobs jobsClient = (cs, Inr (profiles, jobs, False)) \<and>
         unitEmbedder (map jobText jobs) = Inr je \<and> length je = length jobs \<and>
         jobs ! i \<in> set jobs \<and> Some ''j2'' = Some (id_job (jobs ! i))" by blast
  have s: "snd (computeRecommendationsForUser jobsClient unitEmbedder cosineSimilarity_spec ''u1''
                  (Some 2)) =
     Inr \<lparr>results = [JobScore (jobOfJobsRow jobsRowB) 1, JobScore (jobOfJobsRow jobsRowA) 0],
          usedPostsFallback = False\<rparr>
     \<and> JobScore (jobOfJobsRow jobsRowB) 1 \<in>
        set (results \<lparr>results = [JobScore (jobOfJobsRow jobsRowB) 1,
                                 JobScore (jobOfJobsRow jobsRowA) 0],
                      usedPostsFallback = False\<rparr>)"
    using single_jobsClient by simp
  from candidate_shapes [THEN conjunct2, THEN mp, OF s] bulk b single_jobsClient
  show ?thesis by simp
qed

text \<open>The claim as stated fails for single-user ranking: the candidate returned holds
  the job record with its title and description, not a job id.\<close>

theorem candidate_shapes_counterexample:
  "snd (computeRecommendationsForUser jobsClient unitEmbedder cosineSimilarity_spec ''u1'' (Some 1)) =
     Inr \<lparr>results =
            [JobScore \<lparr>id_job = ''j2'', title = Some ''Analyst'',
                       description = Some ''python sql analyst'', content = None,
                       job_metadata = JUndefined, accessibility_features = JUndefined\<rparr> 1],
          usedPostsFallback = False\<rparr>
   \<and> \<not> is_JobIdScore
         (JobScore \<lparr>id_job = ''j2'', title = Some ''Analyst'',
                    description = Some ''python sql analyst'', content = None,
                    job_metadata = JUndefined, accessibility_features = JUndefined\<rparr> 1)"
proof -
  have "snd (computeRecommendationsForUser jobsClient unitEmbedder cosineSimilarity_spec ''u1''
               (Some 1)) =
     Inr \<lparr>results = [JobScore (jobOfJobsRow jobsRowB) 1], usedPostsFallback = False\<rparr>"
    unfolding forUser_found [OF select_jobsClient load_jobsClient]
    by (simp add: semantic_jobsClient slice0_def)
  then show ?thesis by (simp add: jobOfJobsRow_def jobsRowB_def)
qed

text \<open>
  C2, as amended. In single-user ranking with a profile and at least one job, the call
  returns a result whatever the embedder does, so an embedding failure is never
  propagated. The keyword path is taken exactly when the \<^verbatim>\<open>try\<close> block throws: when
  either \<^verbatim>\<open>embedTexts\<close> call fails, or when both succeed and a later
  \<^verbatim>\<open>cosineSimilarity\<close> call of the same block throws. When an \<^verbatim>\<open>embedTexts\<close> call
  fails the results are those of the keyword ranking.
\<close>

theorem keyword_fallback_trigger:
  assumes "error (select_profile s u) = None" and "data (select_profile s u) = Some p"
    and "loadJobs s = (cs, Inr (jobs, flag))" and "jobs \<noteq> []"
  shows "snd (computeRecommendationsForUser s e c u n) =
           Inr \<lparr>results = slice0 (case semanticRanking e c p jobs of
                                     Inr scored \<Rightarrow> scored
                                   | Inl err \<Rightarrow> keywordRanking p jobs) (topNOrDefault n),
                usedPostsFallback = flag\<rparr>
         \<and> ((\<exists>err. semanticRanking e c p jobs = Inl err) =
              (isl (e [profileText p]) \<or> isl (e (map jobText jobs)) \<or>
               (\<exists>pv je i. e [profileText p] = Inr pv \<and> e (map jobText jobs) = Inr je \<and>
                          i < length jobs \<and> isl (c (nth_opt pv 0) (nth_opt je i)))))
         \<and> (isl (e [profileText p]) \<or> isl (e (map jobText jobs)) \<longrightarrow>
              snd (computeRecommendationsForUser s e c u n) =
                Inr \<lparr>results = slice0 (keywordRanking p jobs) (topNOrDefault n),
                     usedPostsFallback = flag\<rparr>)"
proof -
  have a: "snd (computeRecommendationsForUser s e c u n) =
           Inr \<lparr>results = slice0 (case semanticRanking e c p jobs of
                                     Inr scored \<Rightarrow> scored
                                   | Inl err \<Rightarrow> keywordRanking p jobs) (topNOrDefault n),
                usedPostsFallback = flag\<rparr>"
    unfolding forUser_found [OF assms(1-3)] using assms(4) by simp
  have b: "snd (computeRecommendationsForUser s e c u n) =
                Inr \<lparr>results = slice0 (keywordRanking p jobs) (topNOrDefault n),
                     usedPostsFallback = flag\<rparr>"
    if "isl (e [profileText p]) \<or> isl (e (map jobText jobs))"
  proof -
    from that have "\<exists>err. semanticRanking e c p jobs = Inl err"
      unfolding semanticRanking_Inl by blast
    then obtain err where "semanticRanking e c p jobs = Inl err" by blast
    with a show ?thesis by simp
  qed
  from a b semanticRanking_Inl [of e c p jobs] show ?thesis by blast
qed

theorem keyword_fallback_trigger_witness:
  "error (select_profile jobsClient ''u1'') = None
   \<and> data (select_profile jobsClient ''u1'') = Some sampleProfile
   \<and> loadJobs jobsClient =
       ([SelectJobs],
        Inr ([jobOfJobsRow jobsRowA, jobOfJobsRow jobsRowB, jobOfJobsRow jobsRowC], False))
   \<and> isl (downEmbedder [profileText sampleProfile])
   \<and> snd (computeRecommendationsForUser jobsClient downEmbedder cosineSimilarity_spec ''u1''
             (Some 2)) =
       Inr \<lparr>results = [JobScore (jobOfJobsRow jobsRowB) 2, JobScore (jobOfJobsRow jobsRowA) 0],
            usedPostsFallback = False\<rparr>"
proof -
  have ne: "[jobOfJobsRow jobsRowA, jobOfJobsRow jobsRowB, jobOfJobsRow jobsRowC] \<noteq> []"
    by simp
  have d: "isl (downEmbedder [profileText sampleProfile])"
    by (simp add: downEmbedder_def)
  from keyword_fallback_trigger [OF select_jobsClient load_jobsClient ne,
      of downEmbedder cosineSimilarity_spec "Some 2"] d
  have "snd (computeRecommendationsForUser jobsClient downEmbedder cosineSimilarity_spec ''u1''
             (Some 2)) =
       Inr \<lparr>results = slice0 (keywordRanking sampleProfile
                [jobOfJobsRow jobsRowA, jobOfJobsRow jobsRowB, jobOfJobsRow jobsRowC])
                (topNOrDefault (Some 2)),
            usedPostsFallback = False\<rparr>"
    by blast
  then have "snd (computeRecommendationsForUser jobsClient downEmbedder cosineSimilarity_spec
                    ''u1'' (Some 2)) =
       Inr \<lparr>results = [JobScore (jobOfJobsRow jobsRowB) 2, JobScore (jobOfJobsRow jobsRowA) 0],
            usedPostsFallback = False\<rparr>"
    by (simp add: keyword_jobsClient slice0_def)
  with select_jobsClient load_jobsClient d show ?thesis by blast
qed

text \<open>The claim as stated fails where both embedding calls succeed and the similarity of
  two vectors of different lengths throws: the results are those of the keyword ranking.\<close>

theorem keyword_fallback_trigger_counterexample:
  "raggedEmbedder [profileText sampleProfile] = Inr [[1, 0]]
   \<and> raggedEmbedder (map jobText
        [jobOfJobsRow jobsRowA, jobOfJobsRow jobsRowB, jobOfJobsRow jobsRowC]) =
       Inr [[0, 1, 0], [0, 1, 0], [0, 1, 0]]
   \<and> cosineSimilarity_spec (Some [1, 0]) (Some [0, 1, 0]) = Inl (Error ''vector length mismatch'')
   \<and> snd (computeRecommendationsForUser jobsClient raggedEmbedder cosineSimilarity_spec ''u1''
             (Some 2)) =
       Inr \<lparr>results = slice0 (keywordRanking sampleProfile
                [jobOfJobsRow jobsRowA, jobOfJobsRow jobsRowB, jobOfJobsRow jobsRowC]) 2,
            usedPostsFallback = False\<rparr>
   \<and> slice0 (keywordRanking sampleProfile
        [jobOfJobsRow jobsRowA, jobOfJobsRow jobsRowB, jobOfJobsRow jobsRowC]) 2 =
       [JobScore (jobOfJobsRow jobsRowB) 2, JobScore (jobOfJobsRow jobsRowA) 0]"
proof -
  have "snd (computeRecommendationsForUser jobsClient raggedEmbedder cosineSimilarity_spec ''u1''
             (Some 2)) =
       Inr \<lparr>results = slice0 (keywordRanking sampleProfile
                [jobOfJobsRow jobsRowA, jobOfJobsRow jobsRowB, jobOfJobsRow jobsRowC]) 2,
            usedPostsFallback = False\<rparr>"
    unfolding forUser_found [OF select_jobsClient load_jobsClient]
    by (simp add: semantic_ragged)
  moreover have "cosineSimilarity_spec (Some [1, 0]) (Some [0, 1, 0]) =
                   Inl (Error ''vector length mismatch'')"
    by (simp add: cosineSimilarity_spec_def)
  moreover have "slice0 (keywordRanking sampleProfile
        [jobOfJobsRow jobsRowA, jobOfJobsRow jobsRowB, jobOfJobsRow jobsRowC]) 2 =
       [JobScore (jobOfJobsRow jobsRowB) 2, JobScore (jobOfJobsRow jobsRowA) 0]"
    by (simp add: keyword_jobsClient slice0_def)
  ultimately show ?thesis using ragged_jobsClient by blast
qed

text \<open>
  C3, as amended. Whenever an entry point returns, its fallback flag is true exactly when
  the jobs were read from the posts: when the response of the primary jobs query carries
  an error or no array of rows (and, for a single user, the profile exists, since without
  a profile no job source is queried and the flag is false). A primary response with an
  empty array of rows is not a failure and leaves the flag false. The flag does not depend
  on the embedder, the similarity function or \<^verbatim>\<open>topN\<close>, hence not on the scoring path.
\<close>

theorem fallback_flag:
  "(snd (computeRecommendationsForAllUsers s e c n) = Inr rb \<longrightarrow>
      usedPostsFallback rb = (error (select_jobs s) \<noteq> None \<or> data (select_jobs s) = None))
   \<and> (snd (computeRecommendationsForUser s e c u n) = Inr r \<longrightarrow>
      usedPostsFallback r =
        (data (select_profile s u) \<noteq> None \<and>
         (error (select_jobs s) \<noteq> None \<or> data (select_jobs s) = None)))
   \<and> map_sum id usedPostsFallback (snd (computeRecommendationsForUser s e c u n)) =
       map_sum id usedPostsFallback (snd (computeRecommendationsForUser s e' c' u n'))"
proof -
  have "usedPostsFallback rb = (error (select_jobs s) \<noteq> None \<or> data (select_jobs s) = None)"
    if "snd (computeRecommendationsForAllUsers s e c n) = Inr rb"
  proof -
    from forAll_Inr [OF that] obtain cs profiles jobs where
      "fetchProfilesAndJobs s = (cs, Inr (profiles, jobs, usedPostsFallback rb))" by auto
    then show ?thesis by (rule fetch_flag)
  qed
  then have bulk: "snd (computeRecommendationsForAllUsers s e c n) = Inr rb \<longrightarrow>
      usedPostsFallback rb = (error (select_jobs s) \<noteq> None \<or> data (select_jobs s) = None)"
    by (rule impI)
  have single: "snd (computeRecommendationsForUser s e c u n) = Inr r \<longrightarrow>
      usedPostsFallback r =
        (data (select_profile s u) \<noteq> None \<and>
         (error (select_jobs s) \<noteq> None \<or> data (select_jobs s) = None))"
    by (rule impI) (rule forUser_flag)
  from bulk single forUser_flag_path [of s e c u n e' c' n'] show ?thesis
    by (intro conjI)
qed

theorem fallback_flag_witness:
  "snd (computeRecommendationsForUser postsClient downEmbedder cosineSimilarity_spec ''u1'' None)
     = Inr \<lparr>results = [JobScore (jobOfPost postA) 1, JobScore (jobOfPost postB) 1],
            usedPostsFallback = True\<rparr>
   \<and> data (select_profile postsClient ''u1'') \<noteq> None
   \<and> error (select_jobs postsClient) \<noteq> None
   \<and> snd (computeRecommendationsForAllUsers jobsClient unitEmbedder cosineSimilarity_spec (Some 2)) =
     Inr \<lparr>results = [''u1'' \<mapsto> [JobIdScore (Some ''j2'') 1, JobIdScore (Some ''j1'') 0]],
          usedPostsFallback = False\<rparr>
   \<and> error (select_jobs jobsClient) = None
   \<and> data (select_jobs jobsClient) \<noteq> None"
proof -
  have a: "error (select_profile postsClient ''u1'') = None"
    and b: "data (select_profile postsClient ''u1'') = Some sampleProfile"
    and c: "error (select_jobs postsClient) \<noteq> None"
    by (simp_all add: postsClient_def found_def failed_def)
  have r: "snd (computeRecommendationsForUser postsClient downEmbedder cosineSimilarity_spec ''u1'' None)
     = Inr \<lparr>results = [JobScore (jobOfPost postA) 1, JobScore (jobOfPost postB) 1],
            usedPostsFallback = True\<rparr>"
    unfolding forUser_found [OF a b load_postsClient]
    by (simp add: semanticRanking_def downEmbedder_def keyword_postsClient slice0_def)
  from fallback_flag [THEN conjunct2, THEN conjunct1, THEN mp, OF r]
  have "data (select_profile postsClient ''u1'') \<noteq> None" by simp
  moreover from fallback_flag [THEN conjunct1, THEN mp, OF bulk_jobsClient]
  have "error (select_jobs jobsClient) = None \<and> data (select_jobs jobsClient) \<noteq> None"
    by simp
  ultimately show ?thesis using r c bulk_jobsClient by blast
qed

text \<open>The claim as stated fails where the primary jobs query succeeds with an empty array:
  the result is empty and the flag is false.\<close>

theorem fallback_flag_counterexample:
  "error (select_jobs emptyJobsClient) = None
   \<and> data (select_jobs emptyJobsClient) = Some []
   \<and> snd (computeRecommendationsForUser emptyJobsClient unitEmbedder cosineSimilarity_spec ''u1'' None)
       = Inr \<lparr>results = [], usedPostsFallback = False\<rparr>"
proof -
  have a: "error (select_profile emptyJobsClient ''u1'') = None"
    and b: "data (select_profile emptyJobsClient ''u1'') = Some sampleProfile"
    by (simp_all add: emptyJobsClient_def found_def)
  have "snd (computeRecommendationsForUser emptyJobsClient unitEmbedder cosineSimilarity_spec ''u1'' None)
       = Inr \<lparr>results = [], usedPostsFallback = False\<rparr>"
    unfolding forUser_found [OF a b load_emptyJobsClient] by simp
  then show ?thesis by (simp add: emptyJobsClient_def found_def)
qed

text \<open>
  C4. A row of the primary jobs source has the columns id, title and description only:
  for every such row \<^verbatim>\<open>jobAccessibilityToText\<close> returns the empty string and
  \<^verbatim>\<open>computeAccessibilityBoost\<close> returns 0 for every needs list. A loaded job with a
  boost that is not zero was loaded from the posts (the fallback flag is set), and the
  \<^verbatim>\<open>job_metadata\<close> of its post holds an object under \<^verbatim>\<open>accessibility_features\<close>.
\<close>

theorem primary_rows_no_boost:
  "jobAccessibilityToText (Some (jobOfJobsRow row)) = []
   \<and> computeAccessibilityBoost needs (Some (jobOfJobsRow row)) = 0
   \<and> (loadJobs s = (cs, Inr (jobs, flag)) \<and> j \<in> set jobs
        \<and> computeAccessibilityBoost needs' (Some j) \<noteq> 0 \<longrightarrow>
      flag \<and> (\<exists>p \<in> set (case data (select_posts s) of None \<Rightarrow> [] | Some ps \<Rightarrow> ps).
                j = jobOfPost p \<and>
                isObject (getField (posts_job_metadata p) ''accessibility_features'')))"
proof -
  have a: "computeAccessibilityBoost nds (Some (jobOfJobsRow rw)) = 0" for nds rw
    by (rule no_text_no_boost) (rule jobsRow_text)
  have "flag \<and> (\<exists>p \<in> set (case data (select_posts s) of None \<Rightarrow> [] | Some ps \<Rightarrow> ps).
                j = jobOfPost p \<and>
                isObject (getField (posts_job_metadata p) ''accessibility_features''))"
    if l: "loadJobs s = (cs, Inr (jobs, flag))" and j: "j \<in> set jobs"
      and b: "computeAccessibilityBoost needs' (Some j) \<noteq> 0"
  proof (cases flag)
    case False
    with l have "loadJobs s = (cs, Inr (jobs, False))" by simp
    then obtain rows where "jobs = map jobOfJobsRow rows"
      using loadJobs_primary by blast
    with j obtain rw where "j = jobOfJobsRow rw" by auto
    with b a show ?thesis by simp
  next
    case True
    with l have "loadJobs s = (cs, Inr (jobs, True))" by simp
    then have "jobs = map jobOfPost (case data (select_posts s) of None \<Rightarrow> [] | Some ps \<Rightarrow> ps)"
      by (rule loadJobs_posts)
    with j obtain p where p: "p \<in> set (case data (select_posts s) of None \<Rightarrow> [] | Some ps \<Rightarrow> ps)"
      and jp: "j = jobOfPost p" by auto
    from b jp have "isObject (getField (posts_job_metadata p) ''accessibility_features'')"
      using boost_needs_object by blast
    with True p jp show ?thesis by blast
  qed
  with a jobsRow_text show ?thesis by blast
qed

theorem primary_rows_no_boost_witness:
  "loadJobs postsClient = ([SelectJobs, SelectPosts], Inr ([jobOfPost postA, jobOfPost postB], True))
   \<and> jobOfPost postA \<in> set [jobOfPost postA, jobOfPost postB]
   \<and> computeAccessibilityBoost (Some [''Visual'']) (Some (jobOfPost postA)) = 0.05
   \<and> isObject (getField (posts_job_metadata postA) ''accessibility_features'')
   \<and> computeAccessibilityBoost (Some [''Visual'']) (Some (jobOfJobsRow jobsRowA)) = 0"
proof -
  have l: "loadJobs postsClient =
             ([SelectJobs, SelectPosts], Inr ([jobOfPost postA, jobOfPost postB], True))"
    by (simp add: loadJobs_def postsClient_def found_def failed_def)
  have m: "jobOfPost postA \<in> set [jobOfPost postA, jobOfPost postB]" by simp
  have b: "computeAccessibilityBoost (Some [''Visual'']) (Some (jobOfPost postA)) = 0.05"
    by (simp add: computeAccessibilityBoost_def enabledFeatures_def jobAccessibilityToText_def
        truthyKeys_def jobOfPost_def postA_def toLowerCase_def isSpace_def capBoost_def
        needMatch_def Let_def)
  then have nz: "computeAccessibilityBoost (Some [''Visual'']) (Some (jobOfPost postA)) \<noteq> 0"
    by simp
  from primary_rows_no_boost [of jobsRowA "Some [''Visual'']" postsClient
      "[SelectJobs, SelectPosts]" "[jobOfPost postA, jobOfPost postB]" True "jobOfPost postA"
      "Some [''Visual'']"] l m nz
  have "computeAccessibilityBoost (Some [''Visual'']) (Some (jobOfJobsRow jobsRowA)) = 0"
    by blast
  moreover have "isObject (getField (posts_job_metadata postA) ''accessibility_features'')"
    by (simp add: postA_def)
  ultimately show ?thesis using l m b by blast
qed

text \<open>
  C5. For every needs list and every job, \<^verbatim>\<open>computeAccessibilityBoost\<close> returns
  \<open>min(0.2, matchCount * 0.05)\<close>, where the match count is the one of the category table
  of the specification (an absent needs list counts as the empty one); the result lies
  between 0 and 0.2; and the capped product of line 74 does not decrease when the match
  count grows.
\<close>

theorem computeAccessibilityBoost_capped:
  "computeAccessibilityBoost needs jb =
     min 0.2 (matchCount (enabledFeatures jb) (case needs of None \<Rightarrow> [] | Some ns \<Rightarrow> ns) * 0.05)
   \<and> 0 \<le> computeAccessibilityBoost needs jb
   \<and> computeAccessibilityBoost needs jb \<le> 0.2
   \<and> (m \<le> m' \<longrightarrow> capBoost m \<le> capBoost m')"
proof -
  have "computeAccessibilityBoost needs jb =
          min 0.2 (matchCount (enabledFeatures jb) (case needs of None \<Rightarrow> [] | Some ns \<Rightarrow> ns) * 0.05)"
    by (simp add: boost_unfold countMatches_matchCount capBoost_def)
  moreover have "m \<le> m' \<longrightarrow> capBoost m \<le> capBoost m'"
    by (simp add: capBoost_mono)
  ultimately show ?thesis using boost_range [of needs jb] by simp
qed

theorem computeAccessibilityBoost_capped_witness:
  "(1::real) \<le> 5 \<and> capBoost 1 = 0.05 \<and> capBoost 5 = 0.2 \<and> capBoost 1 \<le> capBoost 5
   \<and> computeAccessibilityBoost (Some [''Visual'', ''other'']) (Some (jobOfPost postA)) = 0.075"
proof -
  have h: "(1::real) \<le> 5" by simp
  have "capBoost 1 \<le> capBoost 5"
    using computeAccessibilityBoost_capped [of None None 1 5] h by simp
  then show ?thesis
    by (simp add: capBoost_def computeAccessibilityBoost_def enabledFeatures_def
        jobAccessibilityToText_def truthyKeys_def jobOfPost_def postA_def toLowerCase_def
        isSpace_def needMatch_def Let_def)
qed

text \<open>
  C6. Every list returned by either entry point is sorted by score, highest first: no
  candidate has a higher score than one before it. Candidates of equal score keep the
  order of the jobs: in single-user ranking their jobs are a subsequence of the loaded
  jobs; in bulk ranking their job ids are a subsequence of \<^verbatim>\<open>jobIds\<close> read at the
  indices of the job vectors, which is the list of the job ids when the embedder returned
  one vector for each job text.
\<close>

theorem ranked_sorted_stable:
  "(snd (computeRecommendationsForAllUsers s e c n) = Inr rb \<and> results rb k = Some rs \<longrightarrow>
      sorted_wrt (\<lambda>a b. score b \<le> score a) rs \<and>
      (\<exists>cs profiles jobs je.
          fetchProfilesAndJobs s = (cs, Inr (profiles, jobs, usedPostsFallback rb)) \<and>
          e (map jobText jobs) = Inr je \<and>
          (\<forall>x. subseq (map jobId (filter (\<lambda>a. score a = x) rs))
                       (map (nth_opt (map id_job jobs)) [0 ..< length je])) \<and>
          (length je = length jobs \<longrightarrow>
             (\<forall>x. subseq (map jobId (filter (\<lambda>a. score a = x) rs))
                          (map (\<lambda>j. Some (id_job j)) jobs)))))
   \<and> (snd (computeRecommendationsForUser s e c u n) = Inr r \<longrightarrow>
      sorted_wrt (\<lambda>a b. score b \<le> score a) (results r) \<and>
      (\<forall>cs jobs flag. loadJobs s = (cs, Inr (jobs, flag)) \<longrightarrow>
         (\<forall>x. subseq (map job (filter (\<lambda>a. score a = x) (results r))) jobs)))"
proof (intro conjI impI allI)
  assume a: "snd (computeRecommendationsForAllUsers s e c n) = Inr rb \<and> results rb k = Some rs"
  from forAll_list [of s e c n rb k rs] a obtain cs profiles jobs pe je pIdx pVec scores where
    f: "fetchProfilesAndJobs s = (cs, Inr (profiles, jobs, usedPostsFallback rb))" and
    je: "e (map jobText jobs) = Inr je" and
    m: "mapE (scorePair c profiles jobs pIdx pVec) (zip [0 ..< length je] je) = Inr scores" and
    rs: "rs = slice0 (sortBy byScoreDesc scores) (topNOrDefault n)"
    by (elim exE conjE) blast
  from rs show "sorted_wrt (\<lambda>a b. score b \<le> score a) rs"
    by (simp add: sorted_slice0 sorted_sortBy)
  have ix: "subseq (map jobId (filter (\<lambda>a. score a = x) rs))
                   (map (nth_opt (map id_job jobs)) [0 ..< length je])" for x
    using slice_sort_subseq [of jobId x scores "topNOrDefault n"] rs scores_jobIds [OF m]
    by simp
  have "\<forall>x. subseq (map jobId (filter (\<lambda>a. score a = x) rs))
                          (map (\<lambda>j. Some (id_job j)) jobs)"
    if len: "length je = length jobs"
  proof -
    have "map (nth_opt (map id_job jobs)) [0 ..< length je] = map Some (map id_job jobs)"
      using nth_opt_upt [of "map id_job jobs"] len by simp
    then have "map (nth_opt (map id_job jobs)) [0 ..< length je]
                 = map (\<lambda>j. Some (id_job j)) jobs" by (simp add: comp_def)
    with ix show ?thesis by simp
  qed
  with f je ix show "\<exists>cs profiles jobs je.
          fetchProfilesAndJobs s = (cs, Inr (profiles, jobs, usedPostsFallback rb)) \<and>
          e (map jobText jobs) = Inr je \<and>
          (\<forall>x. subseq (map jobId (filter (\<lambda>a. score a = x) rs))
                       (map (nth_opt (map id_job jobs)) [0 ..< length je])) \<and>
          (length je = length jobs \<longrightarrow>
             (\<forall>x. subseq (map jobId (filter (\<lambda>a. score a = x) rs))
                          (map (\<lambda>j. Some (id_job j)) jobs)))"
    by blast
next
  assume a: "snd (computeRecommendationsForUser s e c u n) = Inr r"
  from forUser_list [OF a] show "sorted_wrt (\<lambda>a b. score b \<le> score a) (results r)"
    by (auto simp: sorted_slice0 sorted_sortBy)
  fix cs jobs flag x
  assume l: "loadJobs s = (cs, Inr (jobs, flag))"
  from forUser_list [OF a]
  show "subseq (map job (filter (\<lambda>a. score a = x) (results r))) jobs"
  proof
    assume "results r = []"
    then show ?thesis by simp
  next
    assume "\<exists>p cs jobs flag scored. data (select_profile s u) = Some p \<and>
            loadJobs s = (cs, Inr (jobs, flag)) \<and> map job scored = jobs \<and>
            (case semanticRanking e c p jobs of Inr r \<Rightarrow> r | Inl err \<Rightarrow> keywordRanking p jobs)
               = sortBy byScoreDesc scored \<and>
            results r = slice0 (sortBy byScoreDesc scored) (topNOrDefault n)"
    then obtain cs' jobs' flag' scored where
      l': "loadJobs s = (cs', Inr (jobs', flag'))" and mj: "map job scored = jobs'" and
      r: "results r = slice0 (sortBy byScoreDesc scored) (topNOrDefault n)"
      by (elim exE conjE)
    from l l' have "jobs' = jobs" by simp
    with mj r slice_sort_subseq [of job x scored "topNOrDefault n"] show ?thesis by simp
  qed
qed

theorem ranked_sorted_stable_witness:
  "snd (computeRecommendationsForAllUsers jobsClient unitEmbedder cosineSimilarity_spec (Some 2)) =
     Inr \<lparr>results = [''u1'' \<mapsto> [JobIdScore (Some ''j2'') 1, JobIdScore (Some ''j1'') 0]],
          usedPostsFallback = False\<rparr>
   \<and> sorted_wrt (\<lambda>a b. score b \<le> score a) [JobIdScore (Some ''j2'') 1, JobIdScore (Some ''j1'') 0]
   \<and> (\<exists>cs profiles jobs je.
         fetchProfilesAndJobs jobsClient = (cs, Inr (profiles, jobs, False)) \<and>
         unitEmbedder (map jobText jobs) = Inr je \<and> length je = length jobs \<and>
         subseq (map jobId (filter (\<lambda>a. score a = 0)
                   [JobIdScore (Some ''j2'') 1, JobIdScore (Some ''j1'') 0]))
                (map (\<lambda>j. Some (id_job j)) jobs))
   \<and> snd (computeRecommendationsForUser jobsClient downEmbedder cosineSimilarity_spec ''u1'' None) =
     Inr \<lparr>results = [JobScore (jobOfJobsRow jobsRowB) 2, JobScore (jobOfJobsRow jobsRowA) 0,
                     JobScore (jobOfJobsRow jobsRowC) 0],
          usedPostsFallback = False\<rparr>
   \<and> loadJobs jobsClient =
       ([SelectJobs],
        Inr ([jobOfJobsRow jobsRowA, jobOfJobsRow jobsRowB, jobOfJobsRow jobsRowC], False))
   \<and> subseq (map job (filter (\<lambda>a. score a = 0)
        [JobScore (jobOfJobsRow jobsRowB) 2, JobScore (jobOfJobsRow jobsRowA) 0,
         JobScore (jobOfJobsRow jobsRowC) 0]))
        [jobOfJobsRow jobsRowA, jobOfJobsRow jobsRowB, jobOfJobsRow jobsRowC]
   \<and> map job (filter (\<lambda>a. score a = 0)
        [JobScore (jobOfJobsRow jobsRowB) 2, JobScore (jobOfJobsRow jobsRowA) 0,
         JobScore (jobOfJobsRow jobsRowC) 0]) = [jobOfJobsRow jobsRowA, jobOfJobsRow jobsRowC]"
proof -
  have k: "snd (computeRecommendationsForUser jobsClient downEmbedder cosineSimilarity_spec ''u1'' None) =
     Inr \<lparr>results = [JobScore (jobOfJobsRow jobsRowB) 2, JobScore (jobOfJobsRow jobsRowA) 0,
                     JobScore (jobOfJobsRow jobsRowC) 0],
          usedPostsFallback = False\<rparr>"
    unfolding forUser_found [OF select_jobsClient load_jobsClient]
    by (simp add: semanticRanking_def downEmbedder_def keyword_jobsClient slice0_def)
  have b: "snd (computeRecommendationsForAllUsers jobsClient unitEmbedder cosineSimilarity_spec
                  (Some 2)) =
             Inr \<lparr>results = [''u1'' \<mapsto> [JobIdScore (Some ''j2'') 1, JobIdScore (Some ''j1'') 0]],
                  usedPostsFallback = False\<rparr>
           \<and> results \<lparr>results = [''u1'' \<mapsto> [JobIdScore (Some ''j2'') 1,
                                              JobIdScore (Some ''j1'') 0]],
                       usedPostsFallback = False\<rparr> ''u1''
               = Some [JobIdScore (Some ''j2'') 1, JobIdScore (Some ''j1'') 0]"
    using bulk_jobsClient by simp
  note t = ranked_sorted_stable [THEN conjunct1, THEN mp, OF b]
  from t have srt: "sorted_wrt (\<lambda>a b. score b \<le> score a)
             [JobIdScore (Some ''j2'') 1, JobIdScore (Some ''j1'') 0]" by (rule conjunct1)
  from t obtain cs profiles jobs je where
    f0: "fetchProfilesAndJobs jobsClient =
          (cs, Inr (profiles, jobs,
             usedPostsFallback \<lparr>results = [''u1'' \<mapsto> [JobIdScore (Some ''j2'') 1,
                                                        JobIdScore (Some ''j1'') 0]],
                                usedPostsFallback = False\<rparr>))" and
    je: "unitEmbedder (map jobText jobs) = Inr je" and
    h: "length je = length jobs \<longrightarrow>
          (\<forall>x. subseq (map jobId (filter (\<lambda>a. score a = x)
                          [JobIdScore (Some ''j2'') 1, JobIdScore (Some ''j1'') 0]))
                       (map (\<lambda>j. Some (id_job j)) jobs))"
    by (elim exE conjE)
  from f0 have f: "fetchProfilesAndJobs jobsClient = (cs, Inr (profiles, jobs, False))" by simp
  from je unitEmbedder_contract have len: "length je = length jobs" by fastforce
  with h have "subseq (map jobId (filter (\<lambda>a. score a = 0)
                          [JobIdScore (Some ''j2'') 1, JobIdScore (Some ''j1'') 0]))
                       (map (\<lambda>j. Some (id_job j)) jobs)" by blast
  with f je len have bulk: "\<exists>cs profiles jobs je.
         fetchProfilesAndJobs jobsClient = (cs, Inr (profiles, jobs, False)) \<and>
         unitEmbedder (map jobText jobs) = Inr je \<and> length je = length jobs \<and>
         subseq (map jobId (filter (\<lambda>a. score a = 0)
                   [JobIdScore (Some ''j2'') 1, JobIdScore (Some ''j1'') 0]))
                (map (\<lambda>j. Some (id_job j)) jobs)" by blast
  from ranked_sorted_stable [of jobsClient downEmbedder cosineSimilarity_spec None _ _ _
      "''u1''" "\<lparr>results = [JobScore (jobOfJobsRow jobsRowB) 2, JobScore (jobOfJobsRow jobsRowA) 0,
                     JobScore (jobOfJobsRow jobsRowC) 0], usedPostsFallback = False\<rparr>",
      THEN conjunct2]
    k load_jobsClient
  have "subseq (map job (filter (\<lambda>a. score a = 0)
        [JobScore (jobOfJobsRow jobsRowB) 2, JobScore (jobOfJobsRow jobsRowA) 0,
         JobScore (jobOfJobsRow jobsRowC) 0]))
        [jobOfJobsRow jobsRowA, jobOfJobsRow jobsRowB, jobOfJobsRow jobsRowC]"
    by simp
  moreover have "map job (filter (\<lambda>a. score a = 0)
        [JobScore (jobOfJobsRow jobsRowB) 2, JobScore (jobOfJobsRow jobsRowA) 0,
         JobScore (jobOfJobsRow jobsRowC) 0]) = [jobOfJobsRow jobsRowA, jobOfJobsRow jobsRowC]"
    by simp
  ultimately show ?thesis using bulk_jobsClient srt bulk k load_jobsClient by blast
qed

text \<open>
  C7. For a \<^verbatim>\<open>topN\<close> that is a count (an integer that is not negative; the default is
  5), no returned list is longer than \<^verbatim>\<open>topN\<close>. In single-user ranking with a profile
  the list has \<open>min(topN, numberOfJobs)\<close> candidates. In bulk ranking each list has
  \<open>min(topN, number of job vectors)\<close> candidates, which is \<open>min(topN, numberOfJobs)\<close> when
  the embedder returned one vector for each job text.
\<close>

theorem ranked_length:
  "(snd (computeRecommendationsForAllUsers s e c n) = Inr rb \<and> results rb k = Some rs
      \<and> 0 \<le> topNOrDefault n \<longrightarrow>
      int (length rs) \<le> topNOrDefault n \<and>
      (\<exists>cs profiles jobs je.
          fetchProfilesAndJobs s = (cs, Inr (profiles, jobs, usedPostsFallback rb)) \<and>
          e (map jobText jobs) = Inr je \<and>
          int (length rs) = min (topNOrDefault n) (int (length je)) \<and>
          (length je = length jobs \<longrightarrow>
             int (length rs) = min (topNOrDefault n) (int (length jobs)))))
   \<and> (snd (computeRecommendationsForUser s e c u n) = Inr r \<and> 0 \<le> topNOrDefault n \<longrightarrow>
      int (length (results r)) \<le> topNOrDefault n \<and>
      (\<forall>p cs jobs flag.
          data (select_profile s u) = Some p \<and> loadJobs s = (cs, Inr (jobs, flag)) \<longrightarrow>
          int (length (results r)) = min (topNOrDefault n) (int (length jobs))))
   \<and> topNOrDefault None = 5"
proof (intro conjI impI allI)
  assume a: "snd (computeRecommendationsForAllUsers s e c n) = Inr rb \<and> results rb k = Some rs
      \<and> 0 \<le> topNOrDefault n"
  from forAll_list [of s e c n rb k rs] a obtain cs profiles jobs pe je pIdx pVec scores where
    f: "fetchProfilesAndJobs s = (cs, Inr (profiles, jobs, usedPostsFallback rb))" and
    je: "e (map jobText jobs) = Inr je" and
    m: "mapE (scorePair c profiles jobs pIdx pVec) (zip [0 ..< length je] je) = Inr scores" and
    rs: "rs = slice0 (sortBy byScoreDesc scores) (topNOrDefault n)"
    by (elim exE conjE) blast
  from scores_nth [OF m] have "length scores = length je" by simp
  with rs a have "length rs = min (nat (topNOrDefault n)) (length je)"
    by (simp add: length_slice0 length_sortBy)
  with a have len: "int (length rs) = min (topNOrDefault n) (int (length je))" by auto
  then show "int (length rs) \<le> topNOrDefault n" by simp
  from len f je show "\<exists>cs profiles jobs je.
          fetchProfilesAndJobs s = (cs, Inr (profiles, jobs, usedPostsFallback rb)) \<and>
          e (map jobText jobs) = Inr je \<and>
          int (length rs) = min (topNOrDefault n) (int (length je)) \<and>
          (length je = length jobs \<longrightarrow>
             int (length rs) = min (topNOrDefault n) (int (length jobs)))" by auto
next
  assume a: "snd (computeRecommendationsForUser s e c u n) = Inr r \<and> 0 \<le> topNOrDefault n"
  then have r: "snd (computeRecommendationsForUser s e c u n) = Inr r"
    and n: "0 \<le> topNOrDefault n" by simp_all
  from forUser_list [OF r] n have "length (results r) \<le> nat (topNOrDefault n)"
    by (auto simp: length_slice0)
  with n show "int (length (results r)) \<le> topNOrDefault n" by simp
  fix p cs jobs flag
  assume b: "data (select_profile s u) = Some p \<and> loadJobs s = (cs, Inr (jobs, flag))"
  from forUser_Inr [OF r] b
  have "results r = (if jobs = [] then []
                     else slice0 (case semanticRanking e c p jobs of
                                    Inr scored \<Rightarrow> scored
                                  | Inl err \<Rightarrow> keywordRanking p jobs) (topNOrDefault n))"
    by auto
  moreover from ranking_scored [where e = e and c = c and p = p and jobs = jobs]
  obtain scored where
    "(case semanticRanking e c p jobs of Inr r \<Rightarrow> r | Inl err \<Rightarrow> keywordRanking p jobs)
        = sortBy byScoreDesc scored" and "map job scored = jobs" by (elim exE conjE)
  moreover from this have "length scored = length jobs" using length_map [of job scored] by simp
  ultimately have "length (results r) = min (nat (topNOrDefault n)) (length jobs)"
    using n by (simp add: length_slice0 length_sortBy)
  with n show "int (length (results r)) = min (topNOrDefault n) (int (length jobs))" by auto
next
  show "topNOrDefault None = 5" by simp
qed

theorem ranked_length_witness:
  "snd (computeRecommendationsForAllUsers jobsClient unitEmbedder cosineSimilarity_spec (Some 2)) =
     Inr \<lparr>results = [''u1'' \<mapsto> [JobIdScore (Some ''j2'') 1, JobIdScore (Some ''j1'') 0]],
          usedPostsFallback = False\<rparr>
   \<and> (\<exists>cs profiles jobs je.
          fetchProfilesAndJobs jobsClient = (cs, Inr (profiles, jobs, False)) \<and>
          unitEmbedder (map jobText jobs) = Inr je \<and> length je = length jobs \<and>
          int (length [JobIdScore (Some ''j2'') 1, JobIdScore (Some ''j1'') 0])
            = min 2 (int (length jobs)))
   \<and> snd (computeRecommendationsForUser jobsClient unitEmbedder cosineSimilarity_spec ''u1'' (Some 2)) =
     Inr \<lparr>results = [JobScore (jobOfJobsRow jobsRowB) 1, JobScore (jobOfJobsRow jobsRowA) 0],
          usedPostsFallback = False\<rparr>
   \<and> int (length [JobScore (jobOfJobsRow jobsRowB) 1, JobScore (jobOfJobsRow jobsRowA) 0]) =
       min 2 (int (length [jobOfJobsRow jobsRowA, jobOfJobsRow jobsRowB, jobOfJobsRow jobsRowC]))"
proof -
  have b: "snd (computeRecommendationsForAllUsers jobsClient unitEmbedder cosineSimilarity_spec
                  (Some 2)) =
             Inr \<lparr>results = [''u1'' \<mapsto> [JobIdScore (Some ''j2'') 1, JobIdScore (Some ''j1'') 0]],
                  usedPostsFallback = False\<rparr>
           \<and> results \<lparr>results = [''u1'' \<mapsto> [JobIdScore (Some ''j2'') 1,
                                              JobIdScore (Some ''j1'') 0]],
                       usedPostsFallback = False\<rparr> ''u1''
               = Some [JobIdScore (Some ''j2'') 1, JobIdScore (Some ''j1'') 0]
           \<and> 0 \<le> topNOrDefault (Some 2)"
    using bulk_jobsClient by simp
  from ranked_length [THEN conjunct1, THEN mp, OF b]
  obtain cs profiles jobs je where
    f0: "fetchProfilesAndJobs jobsClient =
          (cs, Inr (profiles, jobs,
             usedPostsFallback \<lparr>results = [''u1'' \<mapsto> [JobIdScore (Some ''j2'') 1,
                                                        JobIdScore (Some ''j1'') 0]],
                                usedPostsFallback = False\<rparr>))" and
    je: "unitEmbedder (map jobText jobs) = Inr je" and
    h: "length je = length jobs \<longrightarrow>
          int (length [JobIdScore (Some ''j2'') 1, JobIdScore (Some ''j1'') 0])
            = min (topNOrDefault (Some 2)) (int (length jobs))"
    by (elim exE conjE)
  from f0 have f: "fetchProfilesAndJobs jobsClient = (cs, Inr (profiles, jobs, False))" by simp
  from je unitEmbedder_contract have len: "length je = length jobs" by fastforce
  with h have "int (length [JobIdScore (Some ''j2'') 1, JobIdScore (Some ''j1'') 0])
                 = min 2 (int (length jobs))" by simp
  with f je len have "\<exists>cs profiles jobs je.
          fetchProfilesAndJobs jobsClient = (cs, Inr (profiles, jobs, False)) \<and>
          unitEmbedder (map jobText jobs) = Inr je \<and> length je = length jobs \<and>
          int (length [JobIdScore (Some ''j2'') 1, JobIdScore (Some ''j1'') 0])
            = min 2 (int (length jobs))"
    by blast
  moreover
  from ranked_length [of jobsClient unitEmbedder cosineSimilarity_spec "Some 2" _ _ _ "''u1''"
      "\<lparr>results = [JobScore (jobOfJobsRow jobsRowB) 1, JobScore (jobOfJobsRow jobsRowA) 0],
        usedPostsFallback = False\<rparr>", THEN conjunct2, THEN conjunct1]
    single_jobsClient select_jobsClient load_jobsClient
  have "int (length [JobScore (jobOfJobsRow jobsRowB) 1, JobScore (jobOfJobsRow jobsRowA) 0]) =
       min 2 (int (length [jobOfJobsRow jobsRowA, jobOfJobsRow jobsRowB, jobOfJobsRow jobsRowC]))"
    by simp
  ultimately show ?thesis using bulk_jobsClient single_jobsClient by blast
qed

text \<open>
  C8. The scores of one returned list come from one scoring path. In bulk ranking every
  candidate's score is a cosine similarity plus the boost. In single-user ranking either
  both \<^verbatim>\<open>embedTexts\<close> calls succeeded and every returned candidate's score is the cosine
  similarity of its job plus the boost, or every returned candidate is the keyword
  candidate of its job, whose score is the number of profile words that occur in the job
  text plus twenty times the boost.
\<close>

theorem one_scoring_path:
  "(snd (computeRecommendationsForAllUsers s e c n) = Inr rb \<and> results rb k = Some rs \<longrightarrow>
      (\<exists>cs profiles jobs je.
          fetchProfilesAndJobs s = (cs, Inr (profiles, jobs, usedPostsFallback rb)) \<and>
          e (map jobText jobs) = Inr je \<and>
          (\<forall>x \<in> set rs. \<exists>pVec i base p.
              i < length je \<and> c (Some pVec) (Some (je ! i)) = Inr base \<and> p \<in> set profiles \<and>
              x = JobIdScore (nth_opt (map id_job jobs) i)
                    (base + computeAccessibilityBoost (accessibility_needs p) (nth_opt jobs i)))))
   \<and> (snd (computeRecommendationsForUser s e c u n) = Inr r
       \<and> data (select_profile s u) = Some p \<and> loadJobs s = (cs, Inr (jobs, flag)) \<longrightarrow>
      (\<exists>pv je. e [profileText p] = Inr pv \<and> e (map jobText jobs) = Inr je \<and>
         (\<forall>x \<in> set (results r). \<exists>i base.
             i < length jobs \<and> c (nth_opt pv 0) (nth_opt je i) = Inr base \<and>
             x = JobScore (jobs ! i)
                   (base + computeAccessibilityBoost (accessibility_needs p) (Some (jobs ! i)))))
      \<or> (\<forall>x \<in> set (results r). \<exists>j \<in> set jobs. x = keywordScore p j))
   \<and> keywordScore p j =
       JobScore j
         (real (length (filter (includes_str
            (toLowerCase (orElse (description j) [] @ '' '' @ orElse (content j) [] @ '' '' @
                          orElse (title j) [] @ '' '' @ jobAccessibilityToText (Some j))))
            (profileWords p)))
          + computeAccessibilityBoost (accessibility_needs p) (Some j) * 20)"
proof (intro conjI impI)
  assume a: "snd (computeRecommendationsForAllUsers s e c n) = Inr rb \<and> results rb k = Some rs"
  from forAll_list [of s e c n rb k rs] a obtain cs profiles jobs pe je pIdx pVec scores where
    f: "fetchProfilesAndJobs s = (cs, Inr (profiles, jobs, usedPostsFallback rb))" and
    je: "e (map jobText jobs) = Inr je" and
    m: "mapE (scorePair c profiles jobs pIdx pVec) (zip [0 ..< length je] je) = Inr scores" and
    rs: "rs = slice0 (sortBy byScoreDesc scores) (topNOrDefault n)"
    by (elim exE conjE) blast
  have "\<exists>pVec i base p.
              i < length je \<and> c (Some pVec) (Some (je ! i)) = Inr base \<and> p \<in> set profiles \<and>
              x = JobIdScore (nth_opt (map id_job jobs) i)
                    (base + computeAccessibilityBoost (accessibility_needs p) (nth_opt jobs i))"
    if "x \<in> set rs" for x
  proof -
    from that rs have "x \<in> set scores" using set_slice0 set_sortBy by fastforce
    then obtain i where i: "i < length scores" and xi: "scores ! i = x"
      by (auto simp: in_set_conv_nth)
    from scores_nth [OF m] i have ij: "i < length je" by simp
    from scores_shape_nth [OF m ij] obtain base and q :: UserProfile where
      b: "c (Some pVec) (Some (je ! i)) = Inr base" and q: "nth_opt profiles pIdx = Some q" and
      "scores ! i = JobIdScore (nth_opt (map id_job jobs) i)
                (base + computeAccessibilityBoost (accessibility_needs q) (nth_opt jobs i))"
      by (elim exE conjE)
    with xi have x: "x = JobIdScore (nth_opt (map id_job jobs) i)
                (base + computeAccessibilityBoost (accessibility_needs q) (nth_opt jobs i))"
      by simp
    from q have "q \<in> set profiles" by (auto simp: nth_opt_def split: if_splits)
    with ij b x show ?thesis by blast
  qed
  with f je show "\<exists>cs profiles jobs je.
          fetchProfilesAndJobs s = (cs, Inr (profiles, jobs, usedPostsFallback rb)) \<and>
          e (map jobText jobs) = Inr je \<and>
          (\<forall>x \<in> set rs. \<exists>pVec i base p.
              i < length je \<and> c (Some pVec) (Some (je ! i)) = Inr base \<and> p \<in> set profiles \<and>
              x = JobIdScore (nth_opt (map id_job jobs) i)
                    (base + computeAccessibilityBoost (accessibility_needs p) (nth_opt jobs i)))"
    by blast
next
  assume a: "snd (computeRecommendationsForUser s e c u n) = Inr r
       \<and> data (select_profile s u) = Some p \<and> loadJobs s = (cs, Inr (jobs, flag))"
  then have "snd (computeRecommendationsForUser s e c u n) = Inr r" by simp
  from forUser_Inr [OF this] a
  have "results r = (if jobs = [] then []
                     else slice0 (case semanticRanking e c p jobs of
                                    Inr scored \<Rightarrow> scored
                                  | Inl err \<Rightarrow> keywordRanking p jobs) (topNOrDefault n))"
    by auto
  then have sub: "set (results r) \<subseteq>
      set (case semanticRanking e c p jobs of Inr r \<Rightarrow> r | Inl err \<Rightarrow> keywordRanking p jobs)"
    using set_slice0 by (cases "jobs = []") simp_all
  from ranking_provenance [where e = e and c = c and p = p and jobs = jobs]
  show "(\<exists>pv je. e [profileText p] = Inr pv \<and> e (map jobText jobs) = Inr je \<and>
         (\<forall>x \<in> set (results r). \<exists>i base.
             i < length jobs \<and> c (nth_opt pv 0) (nth_opt je i) = Inr base \<and>
             x = JobScore (jobs ! i)
                   (base + computeAccessibilityBoost (accessibility_needs p) (Some (jobs ! i)))))
      \<or> (\<forall>x \<in> set (results r). \<exists>j \<in> set jobs. x = keywordScore p j)"
  proof
    assume "\<exists>pv je. e [profileText p] = Inr pv \<and> e (map jobText jobs) = Inr je \<and>
      (\<forall>x \<in> set (case semanticRanking e c p jobs of Inr r \<Rightarrow> r | Inl err \<Rightarrow> keywordRanking p jobs).
         \<exists>i base. i < length jobs \<and> c (nth_opt pv 0) (nth_opt je i) = Inr base \<and>
           x = JobScore (jobs ! i)
                 (base + computeAccessibilityBoost (accessibility_needs p) (Some (jobs ! i))))"
    with sub show ?thesis by (intro disjI1) blast
  next
    assume "\<forall>x \<in> set (case semanticRanking e c p jobs of Inr r \<Rightarrow> r | Inl err \<Rightarrow> keywordRanking p jobs).
         \<exists>j \<in> set jobs. x = keywordScore p j"
    with sub show ?thesis by (intro disjI2) blast
  qed
next
  show "keywordScore p j =
       JobScore j
         (real (length (filter (includes_str
            (toLowerCase (orElse (description j) [] @ '' '' @ orElse (content j) [] @ '' '' @
                          orElse (title j) [] @ '' '' @ jobAccessibilityToText (Some j))))
            (profileWords p)))
          + computeAccessibilityBoost (accessibility_needs p) (Some j) * 20)"
    by (simp add: keywordScore_def Let_def count_foldl)
qed

theorem one_scoring_path_witness:
  "snd (computeRecommendationsForAllUsers jobsClient unitEmbedder cosineSimilarity_spec (Some 2)) =
     Inr \<lparr>results = [''u1'' \<mapsto> [JobIdScore (Some ''j2'') 1, JobIdScore (Some ''j1'') 0]],
          usedPostsFallback = False\<rparr>
   \<and> snd (computeRecommendationsForUser jobsClient downEmbedder cosineSimilarity_spec ''u1''
            (Some 2)) =
     Inr \<lparr>results = [JobScore (jobOfJobsRow jobsRowB) 2, JobScore (jobOfJobsRow jobsRowA) 0],
          usedPostsFallback = False\<rparr>
   \<and> data (select_profile jobsClient ''u1'') = Some sampleProfile
   \<and> loadJobs jobsClient =
       ([SelectJobs],
        Inr ([jobOfJobsRow jobsRowA, jobOfJobsRow jobsRowB, jobOfJobsRow jobsRowC], False))
   \<and> (\<exists>j \<in> set [jobOfJobsRow jobsRowA, jobOfJobsRow jobsRowB, jobOfJobsRow jobsRowC].
         JobScore (jobOfJobsRow jobsRowB) 2 = keywordScore sampleProfile j)
   \<and> (\<exists>cs profiles jobs je.
         fetchProfilesAndJobs jobsClient = (cs, Inr (profiles, jobs, False)) \<and>
         unitEmbedder (map jobText jobs) = Inr je \<and>
         (\<exists>pVec i base. \<exists>p \<in> set profiles.
             i < length je \<and> cosineSimilarity_spec (Some pVec) (Some (je ! i)) = Inr base \<and>
             JobIdScore (Some ''j2'') 1 =
               JobIdScore (nth_opt (map id_job jobs) i)
                 (base + computeAccessibilityBoost (accessibility_needs p) (nth_opt jobs i))))"
proof -
  have b: "snd (computeRecommendationsForAllUsers jobsClient unitEmbedder cosineSimilarity_spec
                  (Some 2)) =
             Inr \<lparr>results = [''u1'' \<mapsto> [JobIdScore (Some ''j2'') 1, JobIdScore (Some ''j1'') 0]],
                  usedPostsFallback = False\<rparr>
           \<and> results \<lparr>results = [''u1'' \<mapsto> [JobIdScore (Some ''j2'') 1,
                                              JobIdScore (Some ''j1'') 0]],
                       usedPostsFallback = False\<rparr> ''u1''
               = Some [JobIdScore (Some ''j2'') 1, JobIdScore (Some ''j1'') 0]"
    using bulk_jobsClient by simp
  from one_scoring_path [THEN conjunct1, THEN mp, OF b]
  obtain cs profiles jobs je where
    f0: "fetchProfilesAndJobs jobsClient =
          (cs, Inr (profiles, jobs,
             usedPostsFallback \<lparr>results = [''u1'' \<mapsto> [JobIdScore (Some ''j2'') 1,
                                                        JobIdScore (Some ''j1'') 0]],
                                usedPostsFallback = False\<rparr>))" and
    je: "unitEmbedder (map jobText jobs) = Inr je" and
    x: "\<forall>x \<in> set [JobIdScore (Some ''j2'') 1, JobIdScore (Some ''j1'') 0].
          \<exists>pVec i base p.
              i < length je \<and> cosineSimilarity_spec (Some pVec) (Some (je ! i)) = Inr base \<and>
              p \<in> set profiles \<and>
              x = JobIdScore (nth_opt (map id_job jobs) i)
                    (base + computeAccessibilityBoost (accessibility_needs p) (nth_opt jobs i))"
    by (elim exE conjE)
  from f0 have f: "fetchProfilesAndJobs jobsClient = (cs, Inr (profiles, jobs, False))" by simp
  from x have "\<exists>pVec i base p.
              i < length je \<and> cosineSimilarity_spec (Some pVec) (Some (je ! i)) = Inr base \<and>
              p \<in> set profiles \<and>
              JobIdScore (Some ''j2'') 1 = JobIdScore (nth_opt (map id_job jobs) i)
                    (base + computeAccessibilityBoost (accessibility_needs p) (nth_opt jobs i))"
    by (rule bspec) simp
  then have "\<exists>pVec i base. \<exists>p \<in> set profiles.
             i < length je \<and> cosineSimilarity_spec (Some pVec) (Some (je ! i)) = Inr base \<and>
             JobIdScore (Some ''j2'') 1 =
               JobIdScore (nth_opt (map id_job jobs) i)
                 (base + computeAccessibilityBoost (accessibility_needs p) (nth_opt jobs i))"
    by blast
  with f je have bulk: "\<exists>cs profiles jobs je.
         fetchProfilesAndJobs jobsClient = (cs, Inr (profiles, jobs, False)) \<and>
         unitEmbedder (map jobText jobs) = Inr je \<and>
         (\<exists>pVec i base. \<exists>p \<in> set profiles.
             i < length je \<and> cosineSimilarity_spec (Some pVec) (Some (je ! i)) = Inr base \<and>
             JobIdScore (Some ''j2'') 1 =
               JobIdScore (nth_opt (map id_job jobs) i)
                 (base + computeAccessibilityBoost (accessibility_needs p) (nth_opt jobs i)))"
    by blast
  have k: "snd (computeRecommendationsForUser jobsClient downEmbedder cosineSimilarity_spec ''u1''
            (Some 2)) =
     Inr \<lparr>results = [JobScore (jobOfJobsRow jobsRowB) 2, JobScore (jobOfJobsRow jobsRowA) 0],
          usedPostsFallback = False\<rparr>"
    unfolding forUser_found [OF select_jobsClient load_jobsClient]
    by (simp add: semanticRanking_def downEmbedder_def keyword_jobsClient slice0_def)
  from one_scoring_path [of jobsClient downEmbedder cosineSimilarity_spec "Some 2" _ _ _ "''u1''"
      "\<lparr>results = [JobScore (jobOfJobsRow jobsRowB) 2, JobScore (jobOfJobsRow jobsRowA) 0],
        usedPostsFallback = False\<rparr>" sampleProfile "[SelectJobs]"
      "[jobOfJobsRow jobsRowA, jobOfJobsRow jobsRowB, jobOfJobsRow jobsRowC]" False,
      THEN conjunct2, THEN conjunct1]
    k select_jobsClient load_jobsClient
  have "(\<forall>x \<in> set [JobScore (jobOfJobsRow jobsRowB) 2, JobScore (jobOfJobsRow jobsRowA) 0].
           \<exists>j \<in> set [jobOfJobsRow jobsRowA, jobOfJobsRow jobsRowB, jobOfJobsRow jobsRowC].
              x = keywordScore sampleProfile j)"
    by (simp add: downEmbedder_def)
  then have "\<exists>j \<in> set [jobOfJobsRow jobsRowA, jobOfJobsRow jobsRowB, jobOfJobsRow jobsRowC].
               JobScore (jobOfJobsRow jobsRowB) 2 = keywordScore sampleProfile j"
    by (rule bspec) simp
  with bulk bulk_jobsClient k select_jobsClient load_jobsClient show ?thesis by blast
qed

text \<open>
  C9. When the profile query finds no row for the user id (no data and no error),
  single-user ranking returns empty results with the fallback flag false, raises no error,
  and the only call it has sent is the profile query: neither job source and no embedding
  request, whatever they would have answered.
\<close>

theorem no_profile_empty:
  "error (select_profile s u) = None \<Longrightarrow> data (select_profile s u) = None \<Longrightarrow>
   computeRecommendationsForUser s e c u n =
     ([SelectProfile u], Inr \<lparr>results = [], usedPostsFallback = False\<rparr>)"
  by (rule forUser_noProfile)

theorem no_profile_empty_witness:
  "error (select_profile postsClient ''u7'') = None
   \<and> data (select_profile postsClient ''u7'') = None
   \<and> computeRecommendationsForUser postsClient downEmbedder cosineSimilarity_spec ''u7'' None =
       ([SelectProfile ''u7''], Inr \<lparr>results = [], usedPostsFallback = False\<rparr>)"
proof -
  have a: "error (select_profile postsClient ''u7'') = None"
    by (simp add: postsClient_def noRow_def)
  have b: "data (select_profile postsClient ''u7'') = None"
    by (simp add: postsClient_def noRow_def)
  from no_profile_empty [OF a b] a b show ?thesis by blast
qed



end
